theory Spec2Isabelle
  imports Complex_Main "HOL-Library.Sublist"
begin

section \<open>Data model (types.ts)\<close>

text \<open>
  Modelling conventions.
  \<^item> A JavaScript \<open>number\<close> is an IEEE 754 double. A finite double is modelled by the
    \<open>real\<close> it denotes (the two zeros are one value), and \<open>fl\<close> rounds a real to the
    nearest double. The pointer handlers \<open>handleMouseDown\<close> and \<open>handleMouseMove\<close>
    round after every operation, as the source does: the statements about the viewport
    round trip and about dragging are statements about the doubles they compute. The
    formulas of the zoom controls, of \<open>centerCard\<close>, of \<open>getPath\<close> and of the
    import layout are written with the exact operations on reals, and the statements
    about them are statements about these formulas. Infinities and NaN are not
    modelled: see \<open>fl\<close>.
  \<^item> A JavaScript \<open>string\<close> is a \<open>string\<close> (a list of characters with codes 0..255,
    read as the code units U+0000..U+00FF).
  \<^item> \<open>string | null\<close> is \<open>string option\<close>; the test \<open>if (s)\<close> on such a value is
    \<open>truthy s\<close>: neither \<open>null\<close> nor the empty string.
  \<^item> React state is one record; a handler reads the state of the last render and
    returns the record after all its \<open>setState\<close> calls.
  \<^item> Record fields keep the source's names, prefixed where the bare name would clash
    (\<open>card_x\<close> for \<open>Card.x\<close>, \<open>conn_id\<close> for \<open>Connection.id\<close>).
\<close>

datatype card_kind = Source | Summary | Note | AiResponse

record card =
  card_id :: string
  card_title :: string
  card_content :: string
  card_x :: real
  card_y :: real
  card_width :: real
  card_height :: real
  card_type :: card_kind
  card_color :: string

record connection =
  conn_id :: string
  fromCardId :: string
  toCardId :: string
  conn_label :: "string option"

record point =
  pt_x :: real
  pt_y :: real

text \<open>The two properties of the container element that \<open>centerCard\<close> reads.\<close>

record element =
  clientWidth :: real
  clientHeight :: real

record mouse_event =
  clientX :: real
  clientY :: real

record wheel_event =
  ctrlKey :: bool
  metaKey :: bool
  deltaX :: real
  deltaY :: real

record key_event =
  targetTagName :: string
  key :: string

datatype direction = Next | Prev

text \<open>
  The state of \<open>App\<close> that the whiteboard reads and writes through its callbacks
  (\<open>cards\<close>, \<open>connections\<close>, \<open>selectedCardId\<close>, \<open>showChat\<close>) together with the
  state of \<open>Whiteboard\<close> itself. \<open>containerRef\<close> is \<open>containerRef.current\<close>.
\<close>

record app_state =
  cards :: "card list"
  connections :: "connection list"
  selectedCardId :: "string option"
  showChat :: bool
  isDragging :: bool
  dragOffset :: point
  activeDragId :: "string option"
  pan :: point
  scale :: real
  isPanning :: bool
  lastMousePos :: point
  isNavOpen :: bool
  connectingFromId :: "string option"
  containerRef :: "element option"

definition truthy :: "string option \<Rightarrow> bool" where
  "truthy s = (case s of None \<Rightarrow> False | Some v \<Rightarrow> v \<noteq> [])"

section \<open>Double-precision arithmetic\<close>

text \<open>The number of binary digits of a natural number.\<close>

fun bit_length :: "nat \<Rightarrow> nat" where
  "bit_length n = (if n = 0 then 0 else Suc (bit_length (n div 2)))"

declare bit_length.simps [simp del]

text \<open>The binary exponent of a positive real \<open>x\<close>: the integer \<open>e\<close> with
  \<open>2 powi e \<le> x < 2 powi (e + 1)\<close>.\<close>

definition exponent_of :: "real \<Rightarrow> int" where
  "exponent_of x =
     (if 1 \<le> x then int (bit_length (nat \<lfloor>x\<rfloor>)) - 1
      else - int (bit_length (nat (\<lceil>1 / x\<rceil> - 1))))"

text \<open>Rounding to the nearest integer, a tie to the even one.\<close>

definition rne :: "real \<Rightarrow> int" where
  "rne x =
     (let f = \<lfloor>x\<rfloor>; d = x - of_int f
      in if d < 1 / 2 then f else if 1 / 2 < d then f + 1 else if even f then f else f + 1)"

text \<open>
  Rounding to the nearest double, ties to even: a significand of 53 binary digits,
  and below \<open>2 powi (- 1022)\<close> the fixed spacing \<open>2 powi (- 1074)\<close> of the subnormal
  numbers. The exponent has no upper limit here: where IEEE 754 arithmetic overflows to
  an infinity (a result of magnitude \<open>2 ^ 1024 - 2 ^ 970\<close> or more), \<open>fl\<close> is still finite.
\<close>

definition fl :: "real \<Rightarrow> real" where
  "fl x =
     (if x = 0 then 0
      else (let e = max (exponent_of \<bar>x\<bar> - 52) (- 1074)
            in of_int (rne (x / 2 powi e)) * 2 powi e))"

text \<open>The JavaScript operators \<open>+\<close>, \<open>-\<close> and \<open>/\<close> on finite doubles (a division by
  zero, which gives an infinity or NaN, is outside the model).\<close>

definition fadd :: "real \<Rightarrow> real \<Rightarrow> real" where
  "fadd a b = fl (a + b)"

definition fsub :: "real \<Rightarrow> real \<Rightarrow> real" where
  "fsub a b = fl (a - b)"

definition fdiv :: "real \<Rightarrow> real \<Rightarrow> real" where
  "fdiv a b = fl (a / b)"



section \<open>Decimal rendering of non-negative integers in template literals\<close>

definition digit_char :: "nat \<Rightarrow> char" where
  "digit_char d = ''0123456789'' ! d"

fun string_of_nat :: "nat \<Rightarrow> string" where
  "string_of_nat n =
     (if n < 10 then [digit_char n] else string_of_nat (n div 10) @ [digit_char (n mod 10)])"

declare string_of_nat.simps [simp del]

text \<open>Reading a decimal rendering back; \<open>string_of_nat\<close> writes digits only.\<close>

definition is_digit :: "char \<Rightarrow> bool" where
  "is_digit c = (c \<in> set ''0123456789'')"

definition digit_val :: "char \<Rightarrow> nat" where
  "digit_val c = of_char c - 48"

definition nat_of_string :: "string \<Rightarrow> nat" where
  "nat_of_string s = foldl (\<lambda>a c. 10 * a + digit_val c) 0 s"

section \<open>App callbacks (App.tsx)\<close>

text \<open>\<open>handleCreateConnection\<close>, App.tsx lines 218-229; \<open>now\<close> is \<open>Date.now()\<close>.\<close>

definition handleCreateConnection :: "nat \<Rightarrow> string \<Rightarrow> string \<Rightarrow> app_state \<Rightarrow> app_state" where
  "handleCreateConnection now fromId toId st =
     (if fromId = toId then st
      else if list_ex (\<lambda>c. fromCardId c = fromId \<and> toCardId c = toId) (connections st) then st
      else st\<lparr>connections := connections st @
             [\<lparr>conn_id = ''conn-'' @ string_of_nat now,
               fromCardId = fromId, toCardId = toId, conn_label = None\<rparr>]\<rparr>)"

text \<open>\<open>onCardUpdate\<close>, App.tsx line 354.\<close>

definition onCardUpdate :: "card \<Rightarrow> app_state \<Rightarrow> app_state" where
  "onCardUpdate updated st =
     st\<lparr>cards := map (\<lambda>c. if card_id c = card_id updated then updated else c) (cards st)\<rparr>"

text \<open>\<open>onCardSelect\<close>, App.tsx lines 355-358.\<close>

definition onCardSelect :: "card \<Rightarrow> app_state \<Rightarrow> app_state" where
  "onCardSelect c st =
     (let st' = st\<lparr>selectedCardId := Some (card_id c)\<rparr>
      in if \<not> showChat st then st'\<lparr>showChat := True\<rparr> else st')"

section \<open>Whiteboard handlers (components/Whiteboard.tsx, kept as src/unnamed/part_000)\<close>

text \<open>\<open>handleMouseDown\<close>, lines 40-58, with the double-precision subtractions and
  division of lines 54-55. The card's handler stops propagation, so the background
  handler does not run for the same event.\<close>

definition handleMouseDown :: "nat \<Rightarrow> mouse_event \<Rightarrow> card \<Rightarrow> app_state \<Rightarrow> app_state" where
  "handleMouseDown now e c st =
     (if truthy (connectingFromId st) then
        (handleCreateConnection now (the (connectingFromId st)) (card_id c) st)
          \<lparr>connectingFromId := None\<rparr>
      else
        onCardSelect c
          (st\<lparr>activeDragId := Some (card_id c),
              isDragging := True,
              dragOffset :=
                \<lparr>pt_x = fsub (fdiv (fsub (clientX e) (pt_x (pan st))) (scale st)) (card_x c),
                 pt_y = fsub (fdiv (fsub (clientY e) (pt_y (pan st))) (scale st)) (card_y c)\<rparr>\<rparr>))"

text \<open>\<open>handleBackgroundMouseDown\<close>, lines 60-64.\<close>

definition handleBackgroundMouseDown :: "mouse_event \<Rightarrow> app_state \<Rightarrow> app_state" where
  "handleBackgroundMouseDown e st =
     st\<lparr>isPanning := True,
        lastMousePos := \<lparr>pt_x = clientX e, pt_y = clientY e\<rparr>,
        connectingFromId := None\<rparr>"

text \<open>\<open>handleMouseMove\<close>, lines 66-82, in double precision as well.\<close>

definition handleMouseMove :: "mouse_event \<Rightarrow> app_state \<Rightarrow> app_state" where
  "handleMouseMove e st =
     (if isDragging st \<and> truthy (activeDragId st) then
        (case find (\<lambda>c. card_id c = the (activeDragId st)) (cards st) of
           Some c \<Rightarrow>
             onCardUpdate
               (c\<lparr>card_x :=
                    fsub (fdiv (fsub (clientX e) (pt_x (pan st))) (scale st)) (pt_x (dragOffset st)),
                  card_y :=
                    fsub (fdiv (fsub (clientY e) (pt_y (pan st))) (scale st)) (pt_y (dragOffset st))\<rparr>)
               st
         | None \<Rightarrow> st)
      else if isPanning st then
        (let dx = fsub (clientX e) (pt_x (lastMousePos st));
             dy = fsub (clientY e) (pt_y (lastMousePos st))
         in st\<lparr>pan := \<lparr>pt_x = fadd (pt_x (pan st)) dx, pt_y = fadd (pt_y (pan st)) dy\<rparr>,
               lastMousePos := \<lparr>pt_x = clientX e, pt_y = clientY e\<rparr>\<rparr>)
      else st)"

text \<open>\<open>handleMouseUp\<close>, lines 84-88.\<close>

definition handleMouseUp :: "app_state \<Rightarrow> app_state" where
  "handleMouseUp st = st\<lparr>isDragging := False, activeDragId := None, isPanning := False\<rparr>"

text \<open>\<open>handleWheel\<close>, lines 90-104.\<close>

definition handleWheel :: "wheel_event \<Rightarrow> app_state \<Rightarrow> app_state" where
  "handleWheel e st =
     (if ctrlKey e \<or> metaKey e then
        (let delta = - deltaY e * 0.001;
             newScale = min (max (scale st + delta) 0.1) 4
         in st\<lparr>scale := newScale\<rparr>)
      else st\<lparr>pan := \<lparr>pt_x = pt_x (pan st) - deltaX e, pt_y = pt_y (pan st) - deltaY e\<rparr>\<rparr>)"

text \<open>\<open>zoomIn\<close> and \<open>zoomOut\<close>, lines 107-108.\<close>

definition zoomIn :: "app_state \<Rightarrow> app_state" where
  "zoomIn st = st\<lparr>scale := min (scale st + 0.1) 4\<rparr>"

definition zoomOut :: "app_state \<Rightarrow> app_state" where
  "zoomOut st = st\<lparr>scale := max (scale st - 0.1) 0.1\<rparr>"

text \<open>\<open>centerCard\<close>, lines 111-125.\<close>

definition centerCard :: "card \<Rightarrow> app_state \<Rightarrow> app_state" where
  "centerCard c st =
     (case containerRef st of
        None \<Rightarrow> st
      | Some el \<Rightarrow>
          (let cardCenterX = (card_x c + card_width c / 2) * scale st;
               cardCenterY = (card_y c + card_height c / 2) * scale st
           in onCardSelect c
                (st\<lparr>pan := \<lparr>pt_x = clientWidth el / 2 - cardCenterX,
                             pt_y = clientHeight el / 2 - cardCenterY\<rparr>\<rparr>)))"

text \<open>\<open>Array.prototype.findIndex\<close>: the first index whose element satisfies the predicate, or -1.\<close>

fun findIndex :: "('a \<Rightarrow> bool) \<Rightarrow> 'a list \<Rightarrow> int" where
  "findIndex P [] = - 1"
| "findIndex P (x # xs) =
     (if P x then 0 else (let i = findIndex P xs in if i = - 1 then - 1 else i + 1))"

text \<open>\<open>navigateSequential\<close>, lines 127-144.\<close>

definition navigateSequential :: "direction \<Rightarrow> app_state \<Rightarrow> app_state" where
  "navigateSequential dir st =
     (if length (cards st) = 0 then st
      else
        (let currentIndex = findIndex (\<lambda>c. Some (card_id c) = selectedCardId st) (cards st);
             nextIndex =
               (if currentIndex = - 1
                then (if dir = Next then 0 else int (length (cards st)) - 1)
                else (if dir = Next then currentIndex + 1 else currentIndex - 1));
             nextIndex = (if nextIndex < 0 then 0 else nextIndex);
             nextIndex =
               (if nextIndex \<ge> int (length (cards st)) then int (length (cards st)) - 1
                else nextIndex)
         in centerCard (cards st ! nat nextIndex) st))"

text \<open>
  The keydown listener, lines 146-156. The effect subscribes it again only when \<open>cards\<close>,
  \<open>selectedCardId\<close> or \<open>scale\<close> change, so the \<open>navigateSequential\<close> it calls is the
  closure of the render in which the effect last ran. That closure reads the current
  \<open>cards\<close>, \<open>selectedCardId\<close> and \<open>scale\<close> (a change of any of them renews it) and the
  current \<open>containerRef\<close>, but it calls the \<open>onCardSelect\<close> of that render, whose
  \<open>showChat\<close> may be out of date: the chat panel can be closed and opened (App.tsx lines
  254 and 396) without renewing the listener. \<open>shown\<close> is the \<open>showChat\<close> that render saw.
  The three functions below are \<open>onCardSelect\<close>, \<open>centerCard\<close> and
  \<open>navigateSequential\<close> as closures of such a render.
\<close>

definition onCardSelect_closure :: "bool \<Rightarrow> card \<Rightarrow> app_state \<Rightarrow> app_state" where
  "onCardSelect_closure shown c st =
     (let st' = st\<lparr>selectedCardId := Some (card_id c)\<rparr>
      in if \<not> shown then st'\<lparr>showChat := True\<rparr> else st')"

definition centerCard_closure :: "bool \<Rightarrow> card \<Rightarrow> app_state \<Rightarrow> app_state" where
  "centerCard_closure shown c st =
     (case containerRef st of
        None \<Rightarrow> st
      | Some el \<Rightarrow>
          (let cardCenterX = (card_x c + card_width c / 2) * scale st;
               cardCenterY = (card_y c + card_height c / 2) * scale st
           in onCardSelect_closure shown c
                (st\<lparr>pan := \<lparr>pt_x = clientWidth el / 2 - cardCenterX,
                             pt_y = clientHeight el / 2 - cardCenterY\<rparr>\<rparr>)))"

definition navigateSequential_closure :: "bool \<Rightarrow> direction \<Rightarrow> app_state \<Rightarrow> app_state" where
  "navigateSequential_closure shown dir st =
     (if length (cards st) = 0 then st
      else
        (let currentIndex = findIndex (\<lambda>c. Some (card_id c) = selectedCardId st) (cards st);
             nextIndex =
               (if currentIndex = - 1
                then (if dir = Next then 0 else int (length (cards st)) - 1)
                else (if dir = Next then currentIndex + 1 else currentIndex - 1));
             nextIndex = (if nextIndex < 0 then 0 else nextIndex);
             nextIndex =
               (if nextIndex \<ge> int (length (cards st)) then int (length (cards st)) - 1
                else nextIndex)
         in centerCard_closure shown (cards st ! nat nextIndex) st))"

text \<open>\<open>handleKeyDown\<close>, lines 147-152: three consecutive \<open>if\<close> statements, of which a
  key passes at most one.\<close>

definition handleKeyDown :: "bool \<Rightarrow> key_event \<Rightarrow> app_state \<Rightarrow> app_state" where
  "handleKeyDown shown e st =
     (if targetTagName e \<in> set [''INPUT'', ''TEXTAREA''] then st
      else
        (let st1 = (if key e = ''ArrowRight'' \<or> key e = ''ArrowDown''
                    then navigateSequential_closure shown Next st else st);
             st2 = (if key e = ''ArrowLeft'' \<or> key e = ''ArrowUp''
                    then navigateSequential_closure shown Prev st1 else st1)
         in if key e = ''Escape'' then st2\<lparr>connectingFromId := None\<rparr> else st2))"

text \<open>The index the navigation buttons are disabled by, line 188.\<close>

definition buttonIndex :: "app_state \<Rightarrow> int" where
  "buttonIndex st =
     (if truthy (selectedCardId st)
      then findIndex (\<lambda>c. Some (card_id c) = selectedCardId st) (cards st) else - 1)"

text \<open>Clicking a card's link button, line 261.\<close>

definition handleLinkClick :: "card \<Rightarrow> app_state \<Rightarrow> app_state" where
  "handleLinkClick c st = st\<lparr>connectingFromId := Some (card_id c)\<rparr>"



section \<open>The whiteboard as a state machine\<close>

text \<open>
  One constructor for each handler the rendered whiteboard attaches (lines 190-376);
  \<open>run\<close> processes events strictly in arrival order. An event names the element the
  browser dispatched it to: which element lies under the pointer is decided by the
  browser from the painted page, not by this code. \<open>CardMouseDown\<close> is a mouse-down on
  the frame or the title bar of a card, \<open>CardContentMouseDown\<close> one on the content area
  of a card, whose handler (line 273) stops the propagation so that no other handler
  runs. A click on a disabled navigation button (lines 352 and 371) runs no handler.
  \<open>KeyDown\<close> carries the \<open>showChat\<close> its listener saw when it was subscribed.
\<close>

datatype event =
    CardMouseDown nat mouse_event card
  | CardContentMouseDown mouse_event card
  | BackgroundMouseDown mouse_event
  | MouseMove mouse_event
  | MouseUp
  | MouseLeave
  | Wheel wheel_event
  | ZoomInClick
  | ZoomOutClick
  | LinkClick card
  | KeyDown bool key_event
  | NavButtonClick direction
  | ContentMapClick card
  | SetNavOpen bool

fun step :: "event \<Rightarrow> app_state \<Rightarrow> app_state" where
  "step (CardMouseDown now e c) st = handleMouseDown now e c st"
| "step (CardContentMouseDown e c) st = st"
| "step (BackgroundMouseDown e) st = handleBackgroundMouseDown e st"
| "step (MouseMove e) st = handleMouseMove e st"
| "step MouseUp st = handleMouseUp st"
| "step MouseLeave st = handleMouseUp st"
| "step (Wheel e) st = handleWheel e st"
| "step ZoomInClick st = zoomIn st"
| "step ZoomOutClick st = zoomOut st"
| "step (LinkClick c) st = handleLinkClick c st"
| "step (KeyDown shown e) st = handleKeyDown shown e st"
| "step (NavButtonClick Prev) st =
     (if length (cards st) = 0 \<or> buttonIndex st = 0 then st
      else navigateSequential Prev st)"
| "step (NavButtonClick Next) st =
     (if length (cards st) = 0 \<or> buttonIndex st = int (length (cards st)) - 1 then st
      else navigateSequential Next st)"
| "step (ContentMapClick c) st = centerCard c st"
| "step (SetNavOpen b) st = st\<lparr>isNavOpen := b\<rparr>"

definition run :: "event list \<Rightarrow> app_state \<Rightarrow> app_state" where
  "run evs st = foldl (\<lambda>s e. step e s) st evs"

text \<open>A pointer-down on a card is followed by any number of pointer-moves.\<close>

definition pointer_moves :: "mouse_event list \<Rightarrow> app_state \<Rightarrow> app_state" where
  "pointer_moves es st = foldl (\<lambda>s e. handleMouseMove e s) st es"

section \<open>Viewport transform and geometry, named as the specification names them\<close>






definition card_position :: "card \<Rightarrow> point" where
  "card_position c = \<lparr>pt_x = card_x c, pt_y = card_y c\<rparr>"

definition card_center :: "card \<Rightarrow> point" where
  "card_center c = \<lparr>pt_x = card_x c + card_width c / 2, pt_y = card_y c + card_height c / 2\<rparr>"

definition viewport_center :: "element \<Rightarrow> point" where
  "viewport_center el = \<lparr>pt_x = clientWidth el / 2, pt_y = clientHeight el / 2\<rparr>"







section \<open>Strings\<close>

text \<open>
  The white space of \<open>String.prototype.trim\<close> and of the regular expression class
  \<open>\s\<close>, among the code units below 256: tab, line feed, vertical tab, form feed,
  carriage return, space and no-break space.
\<close>

definition is_space :: "char \<Rightarrow> bool" where
  "is_space c = (c \<in> set [CHR 0x09, CHR 0x0A, CHR 0x0B, CHR 0x0C, CHR 0x0D, CHR '' '', CHR 0xA0])"

definition trim :: "string \<Rightarrow> string" where
  "trim s = rev (dropWhile is_space (rev (dropWhile is_space s)))"

definition newline :: string where
  "newline = [CHR 0x0A]"

text \<open>\<open>s.split('\n')\<close>: never the empty list.\<close>

fun split_lines :: "string \<Rightarrow> string list" where
  "split_lines [] = [[]]"
| "split_lines (c # cs) =
     (if c = CHR 0x0A then [] # split_lines cs
      else (case split_lines cs of l # ls \<Rightarrow> (c # l) # ls | [] \<Rightarrow> [[c]]))"

text \<open>\<open>xs.join(sep)\<close>.\<close>

fun join :: "string \<Rightarrow> string list \<Rightarrow> string" where
  "join sep [] = []"
| "join sep [s] = s"
| "join sep (s # t # ts) = s @ sep @ join sep (t # ts)"

text \<open>\<open>s.toLowerCase()\<close> on code units below 256: A-Z and the Latin-1 capitals.\<close>

definition lower_char :: "char \<Rightarrow> char" where
  "lower_char c =
     (let n = (of_char c :: nat)
      in if (65 \<le> n \<and> n \<le> 90) \<or> (192 \<le> n \<and> n \<le> 222 \<and> n \<noteq> 215) then char_of (n + 32) else c)"

definition toLowerCase :: "string \<Rightarrow> string" where
  "toLowerCase s = map lower_char s"

definition endsWith :: "string \<Rightarrow> string \<Rightarrow> bool" where
  "endsWith s suf = (length suf \<le> length s \<and> drop (length s - length suf) s = suf)"

text \<open>The JavaScript expression \<open>a || b\<close> on a possibly undefined string \<open>a\<close>.\<close>

definition or_else :: "string option \<Rightarrow> string \<Rightarrow> string" where
  "or_else a b = (if truthy a then the a else b)"

text \<open>A thrown \<open>Error\<close> with its message; a rejected promise is \<open>Inl\<close> of it.\<close>

datatype js_error = Error string

section \<open>Files\<close>

text \<open>
  A \<open>File\<close> of the upload: its name, the string \<open>file.text()\<close> resolves to, and what
  pdf.js makes of its bytes: \<open>None\<close> when loading the document or a page fails, else
  for every page, in order, the \<open>str\<close> of its text items.
\<close>

record js_file =
  file_name :: string
  file_text :: string
  pdf_pages :: "string list list option"

section \<open>Markdown import (services/markdownUtils.ts)\<close>

record md_section =
  md_title :: string
  md_content :: string

text \<open>The test \<open>/^#{1,2}\s/.test(line)\<close>, line 20.\<close>

definition is_header :: "string \<Rightarrow> bool" where
  "is_header line =
     (case line of
        a # b # rest \<Rightarrow>
          a = CHR ''#'' \<and>
          (is_space b \<or> (b = CHR ''#'' \<and> (case rest of c # _ \<Rightarrow> is_space c | [] \<Rightarrow> False)))
      | _ \<Rightarrow> False)"

text \<open>\<open>line.replace(/^#+\s+/, '')\<close>, line 30: the match is greedy and needs at least one
  \<open>#\<close> followed by at least one white space.\<close>

definition strip_hashes :: "string \<Rightarrow> string" where
  "strip_hashes line =
     (let rest = dropWhile (\<lambda>c. c = CHR ''#'') line;
          body = dropWhile is_space rest
      in if rest \<noteq> line \<and> body \<noteq> rest then body else line)"

text \<open>One iteration of the loop of lines 17-35 on
  \<open>(sections, currentTitle, currentContent)\<close>.\<close>

definition parse_line ::
  "md_section list \<times> string \<times> string list \<Rightarrow> string \<Rightarrow> md_section list \<times> string \<times> string list"
where
  "parse_line acc line =
     (case acc of (sections, currentTitle, currentContent) \<Rightarrow>
        if is_header line then
          ((if length currentContent > 0
            then sections @ [\<lparr>md_title = currentTitle,
                               md_content = trim (join newline currentContent)\<rparr>]
            else sections),
           trim (strip_hashes line),
           [line])
        else (sections, currentTitle, currentContent @ [line]))"

text \<open>\<open>parseMarkdownFile\<close>, lines 6-51.\<close>

definition parseMarkdownFile :: "js_file \<Rightarrow> md_section list" where
  "parseMarkdownFile f =
     (let text = file_text f;
          lines = split_lines text
      in case foldl parse_line ([], file_name f, []) lines of
           (sections, currentTitle, currentContent) \<Rightarrow>
             (let sections =
                    (if length currentContent > 0
                     then sections @ [\<lparr>md_title = currentTitle,
                                        md_content = trim (join newline currentContent)\<rparr>]
                     else sections)
              in if length sections = 0 \<and> trim text \<noteq> []
                 then [\<lparr>md_title = file_name f, md_content = text\<rparr>]
                 else sections))"

section \<open>PDF import (services/pdfUtils.ts)\<close>

record pdf_page_content =
  pageNumber :: nat
  page_text :: string

text \<open>\<open>extractTextFromPdf\<close>, lines 12-45: any failure inside is rethrown as one error.\<close>

definition extractTextFromPdf :: "js_file \<Rightarrow> js_error + pdf_page_content list" where
  "extractTextFromPdf f =
     (case pdf_pages f of
        None \<Rightarrow> Inl (Error ''Failed to parse PDF file. Ensure it is a valid PDF.'')
      | Some pages \<Rightarrow>
          Inr (filter (\<lambda>p. length (trim (page_text p)) > 0)
                 (map (\<lambda>(i, items). \<lparr>pageNumber = i, page_text = join '' '' items\<rparr>)
                    (enumerate 1 pages))))"

section \<open>Translation and generation client (services/geminiService.ts)\<close>

text \<open>
  The external SDK. \<open>apiKey\<close> is \<open>process.env.API_KEY\<close>; \<open>generateContent\<close> is what the
  awaited call \<open>ai.models.generateContent(request)\<close> does: it throws, or it returns a
  response whose \<open>text\<close> may be undefined. Constructing the client with a non-empty key
  is taken not to throw.
\<close>

record gen_request =
  req_model :: string
  req_contents :: string
  req_systemInstruction :: "string option"
  req_thinkingBudget :: "nat option"

datatype gen_outcome = Throws js_error | Responds "string option"

record gemini =
  apiKey :: "string option"
  generateContent :: "gen_request \<Rightarrow> gen_outcome"

record chat_message =
  msg_id :: string
  msg_role :: string
  msg_text :: string
  msg_isThinking :: "bool option"

definition SYSTEM_INSTRUCTION :: string where
  \<open>SYSTEM_INSTRUCTION =
     ''You are an expert tutor and research assistant designed to help users learn complex topics using the "Heptabase" methodology. ''
     @ newline @ ''Your goal is not just to give answers, but to foster deep understanding.''
     @ newline @ ''1. When asked to summarize, focus on the "mental structure" of the content: main ideas, arguments, and how they build on each other.''
     @ newline @ ''2. When asked to explain, use analogies and concrete examples.''
     @ newline @ ''3. If the user shares a specific text, treat it as the primary source truth.''
     @ newline @ ''4. You are capable of "Thinking" deeply about complex connections. Use this ability to find subtle relationships in the text.''\<close>

text \<open>The request of \<open>generateAIResponse\<close>, lines 25-59.\<close>

definition generate_request :: "string \<Rightarrow> string \<Rightarrow> bool \<Rightarrow> gen_request" where
  "generate_request context userPrompt useThinking =
     (let modelName = (if useThinking then ''gemini-3-pro-preview'' else ''gemini-3-flash-preview'');
          thinkingBudget = (if useThinking then Some 32768 else None);
          fullPrompt =
            newline @ ''  CONTEXT FROM WHITEBOARD:'' @ newline @ ''  '' @ context @ newline
            @ ''  '' @ newline @ ''  ---'' @ newline @ ''  USER QUESTION:'' @ newline
            @ ''  '' @ userPrompt @ newline @ ''  ''
      in \<lparr>req_model = modelName, req_contents = fullPrompt,
          req_systemInstruction = Some SYSTEM_INSTRUCTION,
          req_thinkingBudget = thinkingBudget\<rparr>)"

definition apology :: string where
  "apology = ''Error generating response. Please check your API key and try again.''"

text \<open>\<open>generateAIResponse\<close>, lines 11-66.\<close>

definition generateAIResponse ::
  "gemini \<Rightarrow> chat_message list \<Rightarrow> string \<Rightarrow> string \<Rightarrow> bool \<Rightarrow> js_error + string"
where
  \<open>generateAIResponse env history context userPrompt useThinking =
     (if \<not> truthy (apiKey env) then Inl (Error ''API Key not found in environment variables.'')
      else
        (case generateContent env (generate_request context userPrompt useThinking) of
           Responds t \<Rightarrow> Inr (or_else t ''I couldn't generate a response.'')
         | Throws e \<Rightarrow> Inr apology))\<close>

text \<open>The request of \<open>translateContent\<close>, lines 94-102.\<close>

definition translate_request :: "string \<Rightarrow> string \<Rightarrow> gen_request" where
  "translate_request text targetLang =
     \<lparr>req_model = ''gemini-3-flash-preview'',
      req_contents =
        ''Translate the following text into '' @ targetLang @ ''. '' @ newline
        @ ''      Maintain the original meaning, academic tone, and formatting (paragraphs/lists).''
        @ newline
        @ ''      Do not add explanations, just return the translated text.'' @ newline
        @ ''      '' @ newline
        @ ''      Text to translate:'' @ newline
        @ ''      '' @ take 15000 text,
      req_systemInstruction = None,
      req_thinkingBudget = None\<rparr>"

text \<open>\<open>translateContent\<close>, lines 87-108.\<close>

definition translateContent :: "gemini \<Rightarrow> string \<Rightarrow> string \<Rightarrow> js_error + string" where
  "translateContent env text targetLang =
     (if \<not> truthy (apiKey env) then Inr text
      else
        (case generateContent env (translate_request text targetLang) of
           Responds t \<Rightarrow> Inr (or_else t text)
         | Throws e \<Rightarrow> Inr text))"

section \<open>File upload (App.tsx, handleFileUpload)\<close>

text \<open>The \<open>{title, text}\<close> objects of line 109.\<close>

record doc_section =
  sec_title :: string
  sec_text :: string

text \<open>The extraction step of one supported file, lines 111-123.\<close>

definition extract_sections :: "js_file \<Rightarrow> js_error + doc_section list" where
  "extract_sections f =
     (let isPdf = endsWith (toLowerCase (file_name f)) ''.pdf'';
          isMd = endsWith (toLowerCase (file_name f)) ''.md''
      in if isPdf then
           (case extractTextFromPdf f of
              Inl e \<Rightarrow> Inl e
            | Inr pages \<Rightarrow>
                Inr (map (\<lambda>p. \<lparr>sec_title = file_name f @ '' - Page '' @ string_of_nat (pageNumber p),
                                 sec_text = page_text p\<rparr>) pages))
         else if isMd then
           Inr (map (\<lambda>s. \<lparr>sec_title = file_name f @ '' - '' @ md_title s,
                            sec_text = md_content s\<rparr>) (parseMarkdownFile f))
         else Inr [])"

text \<open>The translation loop, lines 129-133: sections are translated one after the other.\<close>

fun translate_sections :: "gemini \<Rightarrow> string \<Rightarrow> doc_section list \<Rightarrow> js_error + doc_section list" where
  "translate_sections env targetLanguage [] = Inr []"
| "translate_sections env targetLanguage (s # ss) =
     (case translateContent env (sec_text s) targetLanguage of
        Inl e \<Rightarrow> Inl e
      | Inr translatedText \<Rightarrow>
          (case translate_sections env targetLanguage ss of
             Inl e \<Rightarrow> Inl e
           | Inr translatedSections \<Rightarrow> Inr (s\<lparr>sec_text := translatedText\<rparr> # translatedSections)))"

text \<open>One card of a file, lines 138-155. \<open>now i idx\<close> is the value of \<open>Date.now()\<close> when
  the card of section \<open>idx\<close> of file \<open>i\<close> is built.\<close>

definition file_card ::
  "(nat \<Rightarrow> nat \<Rightarrow> nat) \<Rightarrow> string \<Rightarrow> nat \<Rightarrow> real \<Rightarrow> nat \<times> doc_section \<Rightarrow> card"
where
  "file_card now targetLanguage i currentXPosition entry =
     (case entry of (idx, section) \<Rightarrow>
        \<lparr>card_id = ''file-'' @ string_of_nat i @ ''-section-'' @ string_of_nat idx @ ''-''
                   @ string_of_nat (now i idx),
         card_title = sec_title section @ '' ''
                      @ (if targetLanguage \<noteq> ''Original'' then ''('' @ targetLanguage @ '')'' else ''''),
         card_content = sec_text section,
         card_x = currentXPosition,
         card_y = 100 + real idx * (600 + 60),
         card_width = 450,
         card_height = 600,
         card_type = Source,
         card_color = (if i mod 2 = 0 then ''#dcfce7'' else ''#d1fae5'')\<rparr>)"

text \<open>The loop over the selected files, lines 97-161, from file index \<open>i\<close> on, with the cards
  collected so far and the column position. Unsupported files are skipped, a failing
  extraction or translation aborts the import.\<close>

fun process_files ::
  "gemini \<Rightarrow> (nat \<Rightarrow> nat \<Rightarrow> nat) \<Rightarrow> string \<Rightarrow> nat \<Rightarrow> js_file list \<Rightarrow> card list \<Rightarrow> real
     \<Rightarrow> js_error + card list"
where
  "process_files env now targetLanguage i [] allNewCards currentXPosition = Inr allNewCards"
| "process_files env now targetLanguage i (f # fs) allNewCards currentXPosition =
     (let isPdf = endsWith (toLowerCase (file_name f)) ''.pdf'';
          isMd = endsWith (toLowerCase (file_name f)) ''.md''
      in if \<not> isPdf \<and> \<not> isMd
         then process_files env now targetLanguage (i + 1) fs allNewCards currentXPosition
         else
           (case extract_sections f of
              Inl e \<Rightarrow> Inl e
            | Inr sections \<Rightarrow>
                (case (if targetLanguage \<noteq> ''Original''
                       then translate_sections env targetLanguage sections
                       else Inr sections) of
                   Inl e \<Rightarrow> Inl e
                 | Inr processedSections \<Rightarrow>
                     process_files env now targetLanguage (i + 1) fs
                       (allNewCards @
                          map (file_card now targetLanguage i currentXPosition)
                            (enumerate 0 processedSections))
                       (currentXPosition + (450 + 200)))))"

text \<open>The sequential connections of lines 173-180.\<close>

definition sequential_connections :: "card list \<Rightarrow> connection list" where
  "sequential_connections allNewCards =
     map (\<lambda>i. \<lparr>conn_id = ''conn-auto-'' @ string_of_nat i,
                fromCardId = card_id (allNewCards ! i),
                toCardId = card_id (allNewCards ! (i + 1)),
                conn_label = None\<rparr>)
         [0 ..< length allNewCards - 1]"

text \<open>\<open>handleFileUpload\<close>, lines 81-196: the alert shown, if any, and the state left.\<close>

definition handleFileUpload ::
  "gemini \<Rightarrow> (nat \<Rightarrow> nat \<Rightarrow> nat) \<Rightarrow> string \<Rightarrow> js_file list \<Rightarrow> app_state \<Rightarrow> string option \<times> app_state"
where
  "handleFileUpload env now targetLanguage files st =
     (if length files = 0 then (None, st)
      else
        (case process_files env now targetLanguage 0 files [] 100 of
           Inl e \<Rightarrow> (Some ''Error reading files. Please check console for details.'', st)
         | Inr allNewCards \<Rightarrow>
             if length allNewCards = 0
             then (Some ''No valid content found in the uploaded files.'', st)
             else (None, st\<lparr>cards := allNewCards,
                             connections := sequential_connections allNewCards\<rparr>)))"

section \<open>The other writers of the card store (App.tsx)\<close>

text \<open>\<open>handleProcessText\<close>, lines 46-79: the state once the timer has fired.\<close>

definition handleProcessText :: "gemini \<Rightarrow> string \<Rightarrow> string \<Rightarrow> app_state \<Rightarrow> js_error + app_state" where
  "handleProcessText env targetLanguage inputText st =
     (case (if targetLanguage \<noteq> ''Original''
            then translateContent env inputText targetLanguage
            else Inr inputText) of
        Inl e \<Rightarrow> Inl e
      | Inr contentToUse \<Rightarrow>
          Inr (st\<lparr>cards :=
                 [\<lparr>card_id = ''1'',
                   card_title = (if targetLanguage \<noteq> ''Original''
                                 then ''Source Material ('' @ targetLanguage @ '')''
                                 else ''Source Material''),
                   card_content = contentToUse,
                   card_x = 100, card_y = 100, card_width = 450, card_height = 600,
                   card_type = Source, card_color = ''#dcfce7''\<rparr>]\<rparr>))"

text \<open>\<open>handleAddCard\<close>, lines 198-216; \<open>now\<close> is \<open>Date.now()\<close>.\<close>

definition handleAddCard :: "nat \<Rightarrow> string \<Rightarrow> string \<Rightarrow> app_state \<Rightarrow> app_state" where
  "handleAddCard now title content st =
     (let newX = (if cards st \<noteq> []
                  then card_x (last (cards st)) + card_width (last (cards st)) + 100 else 600);
          newY = (if cards st \<noteq> [] then card_y (last (cards st)) else 400);
          newCard = \<lparr>card_id = string_of_nat now, card_title = title, card_content = content,
                     card_x = newX, card_y = newY, card_width = 350, card_height = 400,
                     card_type = AiResponse, card_color = ''#e0e7ff''\<rparr>
      in st\<lparr>cards := cards st @ [newCard]\<rparr>)"

section \<open>The application as a state machine\<close>

text \<open>Every handler that writes the card store or the connection store.\<close>

datatype app_event =
    ProcessText gemini string string
  | FileUpload gemini "nat \<Rightarrow> nat \<Rightarrow> nat" string "js_file list"
  | AddCard nat string string
  | Board event

fun app_step :: "app_event \<Rightarrow> app_state \<Rightarrow> app_state" where
  "app_step (ProcessText env targetLanguage inputText) st =
     (case handleProcessText env targetLanguage inputText st of Inl e \<Rightarrow> st | Inr st' \<Rightarrow> st')"
| "app_step (FileUpload env now targetLanguage files) st =
     snd (handleFileUpload env now targetLanguage files st)"
| "app_step (AddCard now title content) st = handleAddCard now title content st"
| "app_step (Board ev) st = step ev st"

definition app_run :: "app_event list \<Rightarrow> app_state \<Rightarrow> app_state" where
  "app_run evs st = foldl (\<lambda>s e. app_step e s) st evs"

section \<open>Notions used to state the import properties\<close>

text \<open>The file-type test of lines 99-102: the name ends in \<open>.pdf\<close> or \<open>.md\<close>, any case.\<close>

definition supported :: "js_file \<Rightarrow> bool" where
  "supported f =
     (endsWith (toLowerCase (file_name f)) ''.pdf'' \<or> endsWith (toLowerCase (file_name f)) ''.md'')"

text \<open>The text a section ends up with: translated unless the language is \<open>Original\<close>.\<close>

definition processed_text :: "gemini \<Rightarrow> string \<Rightarrow> string \<Rightarrow> string" where
  "processed_text env targetLanguage text =
     (if targetLanguage \<noteq> ''Original''
      then (case translateContent env text targetLanguage of Inr t \<Rightarrow> t | Inl e \<Rightarrow> text)
      else text)"

text \<open>The title suffix of line 146.\<close>

definition language_suffix :: "string \<Rightarrow> string" where
  "language_suffix targetLanguage =
     (if targetLanguage \<noteq> ''Original'' then ''('' @ targetLanguage @ '')'' else '''')"

section \<open>Properties of the connection store and of the selection\<close>

definition no_self_loop :: "connection list \<Rightarrow> bool" where
  "no_self_loop conns = (\<forall>c \<in> set conns. fromCardId c \<noteq> toCardId c)"

definition no_duplicate_pair :: "connection list \<Rightarrow> bool" where
  "no_duplicate_pair conns = distinct (map (\<lambda>c. (fromCardId c, toCardId c)) conns)"

definition has_pair :: "string \<Rightarrow> string \<Rightarrow> connection list \<Rightarrow> bool" where
  "has_pair fromId toId conns = (\<exists>c \<in> set conns. fromCardId c = fromId \<and> toCardId c = toId)"

text \<open>The index \<open>navigateSequential\<close> computes for the current selection (line 131).\<close>

definition currentIndex :: "app_state \<Rightarrow> int" where
  "currentIndex st = findIndex (\<lambda>c. Some (card_id c) = selectedCardId st) (cards st)"

text \<open>The state a call of \<open>centerCard c\<close> leaves when the container element is \<open>el\<close>.\<close>

definition centered_on :: "element \<Rightarrow> card \<Rightarrow> app_state \<Rightarrow> app_state" where
  "centered_on el c st =
     st\<lparr>pan := \<lparr>pt_x = pt_x (viewport_center el) - pt_x (card_center c) * scale st,
                 pt_y = pt_y (viewport_center el) - pt_y (card_center c) * scale st\<rparr>,
        selectedCardId := Some (card_id c),
        showChat := True\<rparr>"

text \<open>A card moved by \<open>(dx, dy)\<close> in canvas space, everything else unchanged.\<close>

definition move_by :: "real \<Rightarrow> real \<Rightarrow> card \<Rightarrow> card" where
  "move_by dx dy c = c\<lparr>card_x := card_x c + dx, card_y := card_y c + dy\<rparr>"










text \<open>
  The index sequential navigation is specified to reach: the first card (\<open>Next\<close>) or the
  last card (\<open>Prev\<close>) when \<open>currentIndex\<close> is -1, otherwise one position further in list
  order, clamped to the valid indices.
\<close>

definition targetIndex :: "direction \<Rightarrow> app_state \<Rightarrow> nat" where
  "targetIndex d st =
     (if currentIndex st = - 1 then (if d = Next then 0 else length (cards st) - 1)
      else if d = Next then min (nat (currentIndex st) + 1) (length (cards st) - 1)
      else nat (currentIndex st) - 1)"




section \<open>Example inputs\<close>

definition example_first :: card where
  "example_first =
     \<lparr>card_id = ''file-0-section-0-1700000000000'',
      card_title = ''notes.md - Basics '',
      card_content = ''# Basics'',
      card_x = 100, card_y = 100, card_width = 450, card_height = 600,
      card_type = Source, card_color = ''#dcfce7''\<rparr>"

definition example_second :: card where
  "example_second =
     example_first\<lparr>card_id := ''file-0-section-1-1700000000000'',
                   card_title := ''notes.md - Details '', card_content := ''## Details'',
                   card_y := 760\<rparr>"

definition example_third :: card where
  "example_third =
     example_first\<lparr>card_id := ''file-0-section-2-1700000000000'',
                   card_title := ''notes.md - Summary '', card_content := ''## Summary'',
                   card_y := 1420\<rparr>"

definition example_link_a :: connection where
  "example_link_a =
     \<lparr>conn_id = ''conn-auto-0'', fromCardId = ''file-0-section-0-1700000000000'',
      toCardId = ''file-0-section-1-1700000000000'', conn_label = None\<rparr>"

definition example_link_b :: connection where
  "example_link_b =
     \<lparr>conn_id = ''conn-auto-1'', fromCardId = ''file-0-section-1-1700000000000'',
      toCardId = ''file-0-section-2-1700000000000'', conn_label = None\<rparr>"

text \<open>The whiteboard right after an import of three sections: the initial values of every
  \<open>useState\<close>, three cards, two connections, a mounted 1280 x 720 container.\<close>

definition example_state :: app_state where
  "example_state =
     \<lparr>cards = [example_first, example_second, example_third],
      connections = [example_link_a, example_link_b],
      selectedCardId = None,
      showChat = True,
      isDragging = False,
      dragOffset = \<lparr>pt_x = 0, pt_y = 0\<rparr>,
      activeDragId = None,
      pan = \<lparr>pt_x = 0, pt_y = 0\<rparr>,
      scale = 1,
      isPanning = False,
      lastMousePos = \<lparr>pt_x = 0, pt_y = 0\<rparr>,
      isNavOpen = False,
      connectingFromId = None,
      containerRef = Some \<lparr>clientWidth = 1280, clientHeight = 720\<rparr>\<rparr>"




text \<open>The last of the three cards is selected; the view has not been panned.\<close>

definition example_last_selected :: app_state where
  "example_last_selected = example_state\<lparr>selectedCardId := Some (card_id example_third)\<rparr>"

text \<open>A card to the right of the first example card, on the same row.\<close>

definition example_right :: card where
  "example_right = example_first\<lparr>card_id := ''1700000000001'', card_x := 750\<rparr>"

text \<open>A Markdown file with a line of text before its two headers, and a file without
  headers that ends with a line break.\<close>

definition example_md_preamble :: js_file where
  "example_md_preamble =
     \<lparr>file_name = ''notes.md'',
      file_text = join newline [''Intro'', ''# Basics'', ''one'', ''## Details'', ''two''],
      pdf_pages = None\<rparr>"

definition example_md_plain :: js_file where
  "example_md_plain =
     \<lparr>file_name = ''plain.md'', file_text = ''plain text'' @ newline, pdf_pages = None\<rparr>"

definition example_md :: js_file where
  "example_md =
     \<lparr>file_name = ''notes.md'',
      file_text = join newline [''# Basics'', ''one'', ''## Details'', ''two''],
      pdf_pages = None\<rparr>"

text \<open>A service that always fails, with and without an API key configured.\<close>

definition failing_service :: "gen_request \<Rightarrow> gen_outcome" where
  "failing_service r = Throws (Error ''503 Service Unavailable'')"

definition example_env_failing :: gemini where
  "example_env_failing = \<lparr>apiKey = Some ''secret'', generateContent = failing_service\<rparr>"

definition example_env_no_key :: gemini where
  "example_env_no_key = \<lparr>apiKey = None, generateContent = failing_service\<rparr>"

text \<open>A Markdown file with three sections, a PDF with three pages of text, a text file.\<close>

definition example_md_three :: js_file where
  "example_md_three =
     \<lparr>file_name = ''a.md'',
      file_text = join newline [''# A'', ''one'', ''## B'', ''two'', ''## C'', ''three''],
      pdf_pages = None\<rparr>"

definition example_pdf_three :: js_file where
  "example_pdf_three =
     \<lparr>file_name = ''b.PDF'', file_text = [],
      pdf_pages = Some [[''first'', ''page''], [''second''], [''third'']]\<rparr>"

definition example_txt :: js_file where
  "example_txt = \<lparr>file_name = ''c.txt'', file_text = ''ignored'', pdf_pages = None\<rparr>"

definition example_clock :: "nat \<Rightarrow> nat \<Rightarrow> nat" where
  "example_clock i idx = 1700000000000 + i"

text \<open>A service that answers without text.\<close>

definition silent_service :: "gen_request \<Rightarrow> gen_outcome" where
  "silent_service r = Responds None"

definition example_env_silent :: gemini where
  "example_env_silent = \<lparr>apiKey = Some ''secret'', generateContent = silent_service\<rparr>"

text \<open>The first of the three cards is selected.\<close>

definition example_first_selected :: app_state where
  "example_first_selected = example_state\<lparr>selectedCardId := Some (card_id example_first)\<rparr>"

section \<open>Facts about the example inputs\<close>

lemma example_ids:
  "card_id example_first = ''file-0-section-0-1700000000000''"
  "card_id example_second = ''file-0-section-1-1700000000000''"
  "card_id example_third = ''file-0-section-2-1700000000000''"
  "card_id example_right = ''1700000000001''"
  by (simp_all add: example_first_def example_second_def example_third_def example_right_def)

lemma example_geometry:
  "card_x example_first = 100" "card_y example_first = 100"
  "card_width example_first = 450" "card_height example_first = 600"
  "card_x example_second = 100" "card_y example_second = 760"
  "card_width example_second = 450" "card_height example_second = 600"
  "card_x example_third = 100" "card_y example_third = 1420"
  "card_width example_third = 450" "card_height example_third = 600"
  "card_x example_right = 750" "card_y example_right = 100"
  "card_width example_right = 450" "card_height example_right = 600"
  by (simp_all add: example_first_def example_second_def example_third_def example_right_def)

lemma example_state_fields:
  "cards example_state = [example_first, example_second, example_third]"
  "connections example_state = [example_link_a, example_link_b]"
  "selectedCardId example_state = None"
  "connectingFromId example_state = None"
  "pan example_state = \<lparr>pt_x = 0, pt_y = 0\<rparr>"
  "scale example_state = 1"
  "containerRef example_state = Some \<lparr>clientWidth = 1280, clientHeight = 720\<rparr>"
  by (simp_all add: example_state_def)



lemma example_link_ends:
  "fromCardId example_link_a = ''file-0-section-0-1700000000000''"
  "toCardId example_link_a = ''file-0-section-1-1700000000000''"
  "fromCardId example_link_b = ''file-0-section-1-1700000000000''"
  "toCardId example_link_b = ''file-0-section-2-1700000000000''"
  by (simp_all add: example_link_a_def example_link_b_def)

section \<open>Facts about double-precision arithmetic\<close>

lemma bit_length_bounds: "0 < n \<Longrightarrow> 2 ^ (bit_length n - 1) \<le> n \<and> n < 2 ^ bit_length n"
proof (induction n rule: bit_length.induct)
  case (1 n)
  show ?case
  proof (cases "n div 2 = 0")
    case True
    with 1(2) have "n = 1" by (simp add: div_eq_0_iff)
    then show ?thesis by (simp add: bit_length.simps)
  next
    case False
    define b where "b = bit_length (n div 2)"
    from False have p: "0 < n div 2" by simp
    from 1(1) [OF _ p] 1(2) have ih: "2 ^ (b - 1) \<le> n div 2" "n div 2 < 2 ^ b"
      by (simp_all add: b_def)
    have bn: "bit_length n = Suc b"
      using 1(2) by (subst bit_length.simps) (simp add: b_def)
    have "0 < b"
      using p unfolding b_def by (subst bit_length.simps) simp
    then have "(2::nat) ^ b = 2 * 2 ^ (b - 1)"
      by (cases b) simp_all
    moreover have "2 * (n div 2) \<le> n" "n < 2 * (n div 2) + 2"
      by presburger+
    ultimately show ?thesis
      using ih unfolding bn by simp
  qed
qed

lemma bit_length_pos: "0 < n \<Longrightarrow> 0 < bit_length n"
  by (subst bit_length.simps) simp

lemma powi_eval: "(2::real) powi e = (if 0 \<le> e then 2 ^ nat e else 1 / 2 ^ nat (- e))"
  by (simp add: power_int_def power_one_over inverse_eq_divide)

lemmas fl_eval = fl_def exponent_of_def bit_length.simps powi_eval rne_def Let_def

text \<open>Roundings of IEEE 754 double precision: the literal \<open>0.1\<close>, a third, and two
  ties between neighbouring doubles.\<close>

lemma fl_examples:
  "fl (1 / 10) = 3602879701896397 / 2 ^ 55"
  "fl (- (1 / 10)) = - (3602879701896397 / 2 ^ 55)"
  "fl (1 / 3) = 6004799503160661 / 2 ^ 54"
  "fl (2 ^ 53 + 1) = 2 ^ 53"
  "fl (2 ^ 53 + 3) = 2 ^ 53 + 4"
  by (simp_all add: fl_eval)

lemma exponent_of_bounds:
  assumes "0 < x"
  shows "2 powi exponent_of x \<le> x" and "x < 2 powi (exponent_of x + 1)"
proof -
  have "2 powi exponent_of x \<le> x \<and> x < 2 powi (exponent_of x + 1)"
  proof (cases "1 \<le> x")
    case True
    define n where "n = nat \<lfloor>x\<rfloor>"
    define b where "b = bit_length n"
    from True have n: "0 < n" by (simp add: n_def)
    from bit_length_bounds [OF n] have lo: "2 ^ (b - 1) \<le> n" and hi: "n + 1 \<le> 2 ^ b"
      by (simp_all add: b_def)
    have "real n = of_int \<lfloor>x\<rfloor>"
      using True by (simp add: n_def)
    then have nx: "real n \<le> x" "x < real n + 1"
      by linarith+
    from lo have "real (2 ^ (b - 1)) \<le> real n"
      by (simp only: of_nat_le_iff)
    then have "(2::real) ^ (b - 1) \<le> real n"
      by (simp only: of_nat_power of_nat_numeral)
    with nx have a: "(2::real) ^ (b - 1) \<le> x" by linarith
    from hi have "real (n + 1) \<le> real (2 ^ b)"
      by (simp only: of_nat_le_iff)
    then have "real n + 1 \<le> (2::real) ^ b"
      by (simp only: of_nat_power of_nat_numeral of_nat_add of_nat_1)
    with nx have c: "x < (2::real) ^ b" by linarith
    have e: "exponent_of x = int b - 1"
      using True by (simp add: exponent_of_def n_def b_def)
    from bit_length_pos [OF n] have "nat (int b - 1) = b - 1" "0 \<le> int b - 1"
      by (simp_all add: b_def)
    with a c show ?thesis
      by (simp add: e power_int_def)
  next
    case False
    define m where "m = \<lceil>1 / x\<rceil>"
    define n where "n = nat (m - 1)"
    define k where "k = bit_length n"
    from False assms have "1 < 1 / x" by simp
    then have m: "2 \<le> m" unfolding m_def by linarith
    then have n: "0 < n" by (simp add: n_def)
    have mx: "1 / x \<le> of_int m" "of_int m - 1 < 1 / x"
      unfolding m_def by linarith+
    have nm: "real n = of_int m - 1"
      using m by (simp add: n_def)
    from bit_length_bounds [OF n] have lo: "2 ^ (k - 1) \<le> n" and hi: "n + 1 \<le> 2 ^ k"
      by (simp_all add: k_def)
    from hi have "real (n + 1) \<le> real (2 ^ k)"
      by (simp only: of_nat_le_iff)
    then have "real n + 1 \<le> (2::real) ^ k"
      by (simp only: of_nat_power of_nat_numeral of_nat_add of_nat_1)
    with nm mx have "1 / x \<le> (2::real) ^ k" by linarith
    with assms have a: "1 / (2::real) ^ k \<le> x"
      by (simp add: field_simps)
    from lo have "real (2 ^ (k - 1)) \<le> real n"
      by (simp only: of_nat_le_iff)
    then have "(2::real) ^ (k - 1) \<le> real n"
      by (simp only: of_nat_power of_nat_numeral)
    with nm mx have "(2::real) ^ (k - 1) < 1 / x" by linarith
    with assms have c: "x < 1 / (2::real) ^ (k - 1)"
      by (simp add: field_simps)
    have e: "exponent_of x = - int k"
      using False by (simp add: exponent_of_def m_def n_def k_def)
    from bit_length_pos [OF n] have kp: "0 < k" by (simp add: k_def)
    show ?thesis
    proof (cases "k = 1")
      case True
      with a c show ?thesis by (simp add: e power_int_def)
    next
      case False
      with kp have "nat (int k - 1) = k - 1" "\<not> 0 \<le> 1 - int k" by simp_all
      with a c kp show ?thesis
        by (simp add: e power_int_def power_one_over inverse_eq_divide)
    qed
  qed
  then show "2 powi exponent_of x \<le> x" and "x < 2 powi (exponent_of x + 1)"
    by simp_all
qed



text \<open>Below \<open>2 powi (- 1022)\<close> the doubles are the multiples of \<open>2 powi (- 1074)\<close>.\<close>

lemma fl_subnormal:
  assumes "x \<noteq> 0" and "\<bar>x\<bar> < 1 / 2 ^ 1022"
  shows "fl x = of_int (rne (x * 2 ^ 1074)) / 2 ^ 1074"
proof -
  have "exponent_of \<bar>x\<bar> < - 1022"
  proof (rule ccontr)
    assume "\<not> exponent_of \<bar>x\<bar> < - 1022"
    then have "- 1022 \<le> exponent_of \<bar>x\<bar>" by simp
    then have "(2::real) powi (- 1022) \<le> 2 powi exponent_of \<bar>x\<bar>"
      by (intro power_int_increasing) simp_all
    moreover have "(2::real) powi (- 1022) = 1 / 2 ^ 1022"
      by (simp add: powi_eval)
    ultimately show False
      using exponent_of_bounds(1) [of "\<bar>x\<bar>"] assms by simp
  qed
  then have "max (exponent_of \<bar>x\<bar> - 52) (- 1074) = - 1074" by simp
  moreover have "(2::real) powi (- 1074) = 1 / 2 ^ 1074"
    by (simp add: powi_eval)
  ultimately show ?thesis
    using assms(1) by (simp add: fl_def)
qed

lemma fl_subnormal_example: "fl (3 / 2 ^ 1075) = 1 / 2 ^ 1073"
  by (subst fl_subnormal) (simp_all add: rne_def)











section \<open>Verification: viewport transform\<close>









section \<open>Verification: zoom controls\<close>




lemma onCardSelect_fields:
  "cards (onCardSelect c st) = cards st" "pan (onCardSelect c st) = pan st"
  "scale (onCardSelect c st) = scale st" "isDragging (onCardSelect c st) = isDragging st"
  "activeDragId (onCardSelect c st) = activeDragId st"
  "dragOffset (onCardSelect c st) = dragOffset st"
  "connections (onCardSelect c st) = connections st"
  "selectedCardId (onCardSelect c st) = Some (card_id c)"
  by (simp_all add: onCardSelect_def Let_def)



lemma onCardSelect_closure_fields:
  "cards (onCardSelect_closure b c st) = cards st" "pan (onCardSelect_closure b c st) = pan st"
  "scale (onCardSelect_closure b c st) = scale st"
  "connections (onCardSelect_closure b c st) = connections st"
  "selectedCardId (onCardSelect_closure b c st) = Some (card_id c)"
  by (simp_all add: onCardSelect_closure_def Let_def)

lemma centerCard_closure_frame:
  "scale (centerCard_closure b c st) = scale st"
  "cards (centerCard_closure b c st) = cards st"
  "connections (centerCard_closure b c st) = connections st"
  by (simp_all add: centerCard_closure_def onCardSelect_closure_fields Let_def
        split: option.splits)

lemma navigateSequential_closure_frame:
  "scale (navigateSequential_closure b d st) = scale st"
  "cards (navigateSequential_closure b d st) = cards st"
  "connections (navigateSequential_closure b d st) = connections st"
  by (simp_all add: navigateSequential_closure_def centerCard_closure_frame Let_def)

text \<open>A closure of the current render is the function itself.\<close>

lemma closure_of_current_render:
  "onCardSelect_closure (showChat st) c st = onCardSelect c st"
  "centerCard_closure (showChat st) c st = centerCard c st"
  "navigateSequential_closure (showChat st) d st = navigateSequential d st"
  by (simp_all add: onCardSelect_closure_def onCardSelect_def centerCard_closure_def
        centerCard_def navigateSequential_closure_def navigateSequential_def Let_def
        split: option.splits)


lemma step_NavButtonClick:
  "step (NavButtonClick d) st = st \<or> step (NavButtonClick d) st = navigateSequential d st"
  by (cases d) simp_all










section \<open>Verification: card updates\<close>

lemma onCardUpdate_cards:
  "cards (onCardUpdate u st) = map (\<lambda>c. if card_id c = card_id u then u else c) (cards st)"
  by (simp add: onCardUpdate_def)

lemma map_replace_ids:
  "map card_id (map (\<lambda>c. if card_id c = card_id u then u else c) xs) = map card_id xs"
  by (induction xs) simp_all

lemma find_card_id: "find (\<lambda>k. card_id k = a) xs = Some c \<Longrightarrow> card_id c = a"
  by (induction xs) (simp_all split: if_splits)


lemma handleMouseMove_cards:
  "cards (handleMouseMove e st) = cards st \<or>
   (\<exists>u. activeDragId st = Some (card_id u) \<and>
        cards (handleMouseMove e st) = map (\<lambda>c. if card_id c = card_id u then u else c) (cards st))"
proof (cases "isDragging st \<and> truthy (activeDragId st)")
  case True
  then obtain a where a: "activeDragId st = Some a"
    by (cases "activeDragId st") (simp_all add: truthy_def)
  show ?thesis
  proof (cases "find (\<lambda>c. card_id c = a) (cards st)")
    case None
    with True a show ?thesis by (simp add: handleMouseMove_def)
  next
    case (Some c)
    then have "card_id c = a" by (rule find_card_id)
    with True a Some show ?thesis
      by (auto simp add: handleMouseMove_def onCardUpdate_cards
            intro!: exI [of _ "c\<lparr>card_x := _, card_y := _\<rparr>"])
  qed
next
  case False
  then show ?thesis by (auto simp add: handleMouseMove_def Let_def)
qed

text \<open>
  Claim C10. Applying a card update keeps the length of the card list and the identities
  in their positions, puts the updated card exactly where the identity matches and leaves
  every other card as it was; the same holds for the update a pointer-move of a drag
  emits, which can only touch cards carrying the dragged identity.
\<close>

theorem onCardUpdate_frame:
  "length (cards (onCardUpdate u st)) = length (cards st) \<and>
   map card_id (cards (onCardUpdate u st)) = map card_id (cards st) \<and>
   (\<forall>i < length (cards st).
      cards (onCardUpdate u st) ! i =
        (if card_id (cards st ! i) = card_id u then u else cards st ! i)) \<and>
   length (cards (handleMouseMove e st)) = length (cards st) \<and>
   map card_id (cards (handleMouseMove e st)) = map card_id (cards st) \<and>
   (\<forall>i < length (cards st).
      Some (card_id (cards st ! i)) \<noteq> activeDragId st \<longrightarrow>
      cards (handleMouseMove e st) ! i = cards st ! i)"
proof -
  have a: "length (cards (onCardUpdate u st)) = length (cards st)"
    by (simp add: onCardUpdate_cards)
  have b: "map card_id (cards (onCardUpdate u st)) = map card_id (cards st)"
    by (simp only: onCardUpdate_cards map_replace_ids)
  have c: "\<forall>i < length (cards st).
      cards (onCardUpdate u st) ! i =
        (if card_id (cards st ! i) = card_id u then u else cards st ! i)"
    by (simp add: onCardUpdate_cards)
  from handleMouseMove_cards [of e st]
  have d: "length (cards (handleMouseMove e st)) = length (cards st)"
    by (elim disjE exE conjE) simp_all
  from handleMouseMove_cards [of e st]
  have e: "map card_id (cards (handleMouseMove e st)) = map card_id (cards st)"
    by (elim disjE exE conjE) (simp_all only: map_replace_ids)
  from handleMouseMove_cards [of e st]
  have f: "\<forall>i < length (cards st).
      Some (card_id (cards st ! i)) \<noteq> activeDragId st \<longrightarrow>
      cards (handleMouseMove e st) ! i = cards st ! i"
    by (elim disjE exE conjE) auto
  from a b c d e f show ?thesis by blast
qed

theorem onCardUpdate_frame_witness:
  "length (cards (onCardUpdate (move_by 50 20 example_second) example_state)) = 3 \<and>
   cards (onCardUpdate (move_by 50 20 example_second) example_state) ! 0 = example_first \<and>
   cards (onCardUpdate (move_by 50 20 example_second) example_state) ! 1 =
     move_by 50 20 example_second \<and>
   cards (onCardUpdate (move_by 50 20 example_second) example_state) ! 2 = example_third \<and>
   activeDragId example_state = None \<and>
   cards (handleMouseMove \<lparr>clientX = 40, clientY = 30\<rparr> example_state) ! 0 = example_first"
proof -
  let ?u = "move_by 50 20 example_second"
  let ?e = "\<lparr>clientX = 40, clientY = 30\<rparr>"
  note t = onCardUpdate_frame [of ?u example_state ?e]
  have u: "card_id ?u = ''file-0-section-1-1700000000000''"
    by (simp add: move_by_def example_ids)
  have d: "activeDragId example_state = None"
    by (simp add: example_state_def)
  from t have l: "length (cards (onCardUpdate ?u example_state)) = 3"
    by (simp add: example_state_fields)
  from t have n: "\<forall>i < length (cards example_state).
      cards (onCardUpdate ?u example_state) ! i =
        (if card_id (cards example_state ! i) = card_id ?u then ?u else cards example_state ! i)"
    by blast
  from t have m: "\<forall>i < length (cards example_state).
      Some (card_id (cards example_state ! i)) \<noteq> activeDragId example_state \<longrightarrow>
      cards (handleMouseMove ?e example_state) ! i = cards example_state ! i"
    by blast
  have "cards (onCardUpdate ?u example_state) ! 0 = example_first"
    using n [rule_format, of 0] by (simp add: example_state_fields example_ids u)
  moreover have "cards (onCardUpdate ?u example_state) ! 1 = ?u"
    using n [rule_format, of 1] by (simp add: example_state_fields example_ids u)
  moreover have "cards (onCardUpdate ?u example_state) ! 2 = example_third"
    using n [rule_format, of 2] by (simp add: example_state_fields example_ids u)
  moreover have "cards (handleMouseMove ?e example_state) ! 0 = example_first"
    using m [rule_format, of 0] by (simp add: example_state_fields d)
  ultimately show ?thesis using l d by blast
qed

section \<open>Verification: dragging a card\<close>






text \<open>The pointer-moves of a drag, as events of the whiteboard.\<close>

lemma pointer_moves_run: "pointer_moves es st = run (map MouseMove es) st"
  unfolding pointer_moves_def run_def by (induction es arbitrary: st) simp_all







section \<open>Verification: sequential navigation\<close>

lemma findIndex_range:
  "findIndex P xs = - 1 \<or>
   (0 \<le> findIndex P xs \<and> findIndex P xs < int (length xs) \<and> P (xs ! nat (findIndex P xs)))"
proof (induction xs)
  case Nil
  then show ?case by simp
next
  case (Cons x xs)
  show ?case
  proof (cases "P x")
    case True
    then show ?thesis by simp
  next
    case False
    from Cons.IH show ?thesis
    proof
      assume "findIndex P xs = - 1"
      with False show ?thesis by simp
    next
      assume a: "0 \<le> findIndex P xs \<and> findIndex P xs < int (length xs) \<and>
                 P (xs ! nat (findIndex P xs))"
      then have "nat (findIndex P xs + 1) = Suc (nat (findIndex P xs))"
        by (simp add: nat_add_distrib)
      with a False show ?thesis by (simp add: Let_def)
    qed
  qed
qed


lemma currentIndex_range:
  "currentIndex st = - 1 \<or>
   (0 \<le> currentIndex st \<and> currentIndex st < int (length (cards st)) \<and>
    Some (card_id (cards st ! nat (currentIndex st))) = selectedCardId st)"
  using findIndex_range [of "\<lambda>c. Some (card_id c) = selectedCardId st" "cards st"]
  by (simp add: currentIndex_def)

lemma centerCard_mounted:
  "containerRef st = Some el \<Longrightarrow> centerCard c st = centered_on el c st"
  by (cases "showChat st")
     (simp_all add: centerCard_def centered_on_def onCardSelect_def Let_def
        viewport_center_def card_center_def)


lemma navigateSequential_target:
  assumes "cards st \<noteq> []"
  shows "navigateSequential d st = centerCard (cards st ! targetIndex d st) st"
proof -
  from assms have n: "0 < length (cards st)" by simp
  have r: "currentIndex st = - 1 \<or> (0 \<le> currentIndex st \<and> currentIndex st < int (length (cards st)))"
    using currentIndex_range [of st] by blast
  have "nat (let i = currentIndex st;
             nextIndex = (if i = - 1 then (if d = Next then 0 else int (length (cards st)) - 1)
                          else (if d = Next then i + 1 else i - 1));
             nextIndex = (if nextIndex < 0 then 0 else nextIndex);
             nextIndex = (if nextIndex \<ge> int (length (cards st)) then int (length (cards st)) - 1
                else nextIndex) in nextIndex) = targetIndex d st"
    using r n by (auto simp add: targetIndex_def Let_def min_def)
  with n show ?thesis
    by (simp add: navigateSequential_def currentIndex_def Let_def)
qed




lemma example_currentIndex:
  "currentIndex example_state = - 1" "currentIndex example_last_selected = 2"
  "currentIndex example_first_selected = 0"
  by (simp_all add: currentIndex_def example_last_selected_def example_first_selected_def
        example_state_fields example_ids)



section \<open>Verification: the keyboard listener\<close>

text \<open>
  A listener subscribed while the chat panel was shown never opens the panel, whatever
  the panel's state when the key is pressed; a listener of the current render navigates
  as the navigation buttons do; Escape cancels a pending connection.
\<close>

lemma navigateSequential_closure_showChat:
  "showChat (navigateSequential_closure True d st) = showChat st"
  by (simp add: navigateSequential_closure_def centerCard_closure_def onCardSelect_closure_def
        Let_def split: option.splits)

lemma handleKeyDown_stale_showChat: "showChat (handleKeyDown True e st) = showChat st"
  by (simp add: handleKeyDown_def navigateSequential_closure_showChat Let_def)

lemma handleKeyDown_current_render:
  assumes "targetTagName e \<notin> set [''INPUT'', ''TEXTAREA'']"
  shows "key e = ''ArrowRight'' \<Longrightarrow>
           handleKeyDown (showChat st) e st = navigateSequential Next st"
    and "key e = ''ArrowLeft'' \<Longrightarrow>
           handleKeyDown (showChat st) e st = navigateSequential Prev st"
    and "key e = ''Escape'' \<Longrightarrow> handleKeyDown shown e st = st\<lparr>connectingFromId := None\<rparr>"
proof -
  from assms have t: "\<not> (targetTagName e \<in> set [''INPUT'', ''TEXTAREA''])" .
  show "handleKeyDown (showChat st) e st = navigateSequential Next st" if "key e = ''ArrowRight''"
    unfolding handleKeyDown_def Let_def if_not_P [OF t] that
    by (simp add: closure_of_current_render)
  show "handleKeyDown (showChat st) e st = navigateSequential Prev st" if "key e = ''ArrowLeft''"
    unfolding handleKeyDown_def Let_def if_not_P [OF t] that
    by (simp add: closure_of_current_render)
  show "handleKeyDown shown e st = st\<lparr>connectingFromId := None\<rparr>" if "key e = ''Escape''"
    unfolding handleKeyDown_def Let_def if_not_P [OF t] that
    by simp
qed

lemma navigateSequential_closure_view:
  "pan (navigateSequential_closure b d st) = pan (navigateSequential d st)"
  "selectedCardId (navigateSequential_closure b d st) = selectedCardId (navigateSequential d st)"
  by (simp_all add: navigateSequential_closure_def navigateSequential_def centerCard_closure_def
        centerCard_def onCardSelect_closure_def onCardSelect_def Let_def split: option.splits)

text \<open>With the last card selected the Next button is disabled, and the right arrow key
  still moves the view, whatever its listener saw.\<close>

lemma key_navigation_at_last_card:
  "step (NavButtonClick Next) example_last_selected = example_last_selected"
  "pan example_last_selected = \<lparr>pt_x = 0, pt_y = 0\<rparr>"
  "pan (step (KeyDown shown \<lparr>targetTagName = ''BODY'', key = ''ArrowRight''\<rparr>)
          example_last_selected) = \<lparr>pt_x = 315, pt_y = - 1360\<rparr>"
proof -
  let ?el = "\<lparr>clientWidth = 1280, clientHeight = 720\<rparr>"
  let ?e = "\<lparr>targetTagName = ''BODY'', key = ''ArrowRight''\<rparr>"
  have cs: "cards example_last_selected = [example_first, example_second, example_third]"
    and p0: "pan example_last_selected = \<lparr>pt_x = 0, pt_y = 0\<rparr>"
    and el: "containerRef example_last_selected = Some ?el"
    and sc: "scale example_last_selected = 1"
    and se: "selectedCardId example_last_selected = Some (card_id example_third)"
    by (simp_all add: example_last_selected_def example_state_fields)
  have "buttonIndex example_last_selected = 2"
    using example_currentIndex(2)
    by (simp add: buttonIndex_def currentIndex_def se truthy_def example_ids)
  then show "step (NavButtonClick Next) example_last_selected = example_last_selected"
    by (simp add: cs)
  show "pan example_last_selected = \<lparr>pt_x = 0, pt_y = 0\<rparr>"
    by (rule p0)
  have t: "targetIndex Next example_last_selected = 2"
    by (simp add: targetIndex_def example_currentIndex cs)
  have "navigateSequential Next example_last_selected =
        centerCard example_third example_last_selected"
    by (simp add: navigateSequential_target cs t)
  then have "pan (navigateSequential Next example_last_selected) = \<lparr>pt_x = 315, pt_y = - 1360\<rparr>"
    by (simp add: centerCard_mounted [OF el] centered_on_def viewport_center_def card_center_def
          example_geometry sc)
  then have "pan (navigateSequential_closure shown Next example_last_selected) =
      \<lparr>pt_x = 315, pt_y = - 1360\<rparr>"
    by (simp only: navigateSequential_closure_view)
  then show "pan (step (KeyDown shown ?e) example_last_selected) = \<lparr>pt_x = 315, pt_y = - 1360\<rparr>"
    by (simp add: handleKeyDown_def)
qed

section \<open>Verification: connection paths\<close>



section \<open>Verification: Markdown import\<close>

lemma split_lines_not_Nil: "split_lines s \<noteq> []"
  by (induction s) (simp_all split: list.splits)

lemma join_Cons: "join sep (x # xs) = x @ (if xs = [] then [] else sep @ join sep xs)"
  by (cases xs) simp_all

lemma join_split_lines: "join newline (split_lines s) = s"
proof (induction s)
  case Nil
  then show ?case by simp
next
  case (Cons c cs)
  obtain l ls where l: "split_lines cs = l # ls"
    using split_lines_not_Nil [of cs] by (cases "split_lines cs") simp_all
  with Cons show ?case
    by (simp add: join_Cons newline_def split: if_splits)
qed

lemma parse_lines_body:
  "\<forall>l \<in> set body. \<not> is_header l \<Longrightarrow>
   foldl parse_line (secs, t, cur) body = (secs, t, cur @ body)"
  by (induction body arbitrary: cur) (simp_all add: parse_line_def)

lemma parse_lines_header:
  "is_header h \<Longrightarrow> \<forall>l \<in> set body. \<not> is_header l \<Longrightarrow>
   foldl parse_line (secs, t, cur) (h # body) =
     ((if cur \<noteq> [] then secs @ [\<lparr>md_title = t, md_content = trim (join newline cur)\<rparr>] else secs),
      trim (strip_hashes h), h # body)"
  using parse_lines_body [of body _ _ "[h]"] by (simp add: parse_line_def)

lemma rev_dropWhile_rev_append:
  "rev (dropWhile P (rev (s @ r))) =
     (if \<forall>c \<in> set r. P c then rev (dropWhile P (rev s)) else s @ rev (dropWhile P (rev r)))"
  by (simp add: dropWhile_append)

lemma prefix_rev_dropWhile_rev: "prefix (rev (dropWhile P (rev s))) s"
proof -
  have "suffix (dropWhile P (rev s)) (rev s)"
    by (rule suffix_dropWhile)
  then show ?thesis
    by (metis suffix_to_prefix rev_rev_ident)
qed

lemma trim_header_prefix:
  assumes "is_header h"
  shows "prefix (trim h) (trim (h @ r))"
    and "\<exists>c \<in> set r. \<not> is_space c \<Longrightarrow> prefix h (trim (h @ r))"
proof -
  from assms obtain h' where h: "h = CHR ''#'' # h'"
    by (cases h) (auto simp add: is_header_def split: list.splits)
  have ns: "\<not> is_space CHR ''#''"
    by (simp add: is_space_def)
  have t: "trim (h @ r) = rev (dropWhile is_space (rev (h @ r)))"
    and t': "trim h = rev (dropWhile is_space (rev h))"
    by (simp_all add: trim_def h ns)
  show "prefix (trim h) (trim (h @ r))"
    unfolding t t' rev_dropWhile_rev_append [of is_space h r]
    using prefix_rev_dropWhile_rev [of is_space h] by simp
  show "\<exists>c \<in> set r. \<not> is_space c \<Longrightarrow> prefix h (trim (h @ r))"
    unfolding t rev_dropWhile_rev_append [of is_space h r] by auto
qed

lemma section_content_prefix:
  assumes "is_header h"
  shows "prefix (trim h) (trim (join newline (h # body)))"
    and "\<exists>c \<in> set (join newline body). \<not> is_space c \<Longrightarrow>
         prefix h (trim (join newline (h # body)))"
proof -
  show "prefix (trim h) (trim (join newline (h # body)))"
    unfolding join_Cons by (rule trim_header_prefix(1) [OF assms])
  assume "\<exists>c \<in> set (join newline body). \<not> is_space c"
  then have "\<exists>c \<in> set (if body = [] then [] else newline @ join newline body). \<not> is_space c"
    by (cases body) auto
  then show "prefix h (trim (join newline (h # body)))"
    unfolding join_Cons by (rule trim_header_prefix(2) [OF assms])
qed

lemma parse_two_headers:
  assumes "split_lines (file_text f) = pre @ h1 # b1 @ h2 # b2"
    and "is_header h1" and "is_header h2"
    and "\<forall>l \<in> set (pre @ b1 @ b2). \<not> is_header l"
  shows "parseMarkdownFile f =
     (if pre = [] then []
      else [\<lparr>md_title = file_name f, md_content = trim (join newline pre)\<rparr>]) @
     [\<lparr>md_title = trim (strip_hashes h1), md_content = trim (join newline (h1 # b1))\<rparr>,
      \<lparr>md_title = trim (strip_hashes h2), md_content = trim (join newline (h2 # b2))\<rparr>]"
proof -
  from assms(4) have p: "\<forall>l \<in> set pre. \<not> is_header l" and q1: "\<forall>l \<in> set b1. \<not> is_header l"
    and q2: "\<forall>l \<in> set b2. \<not> is_header l"
    by auto
  have "foldl parse_line ([], file_name f, []) (pre @ h1 # b1 @ h2 # b2) =
        foldl parse_line (foldl parse_line (foldl parse_line ([], file_name f, []) pre) (h1 # b1)) (h2 # b2)"
    by simp
  also have "\<dots> = ((if pre = [] then []
                   else [\<lparr>md_title = file_name f, md_content = trim (join newline pre)\<rparr>]) @
                  [\<lparr>md_title = trim (strip_hashes h1), md_content = trim (join newline (h1 # b1))\<rparr>],
                  trim (strip_hashes h2), h2 # b2)"
    by (simp only: parse_lines_body [OF p] parse_lines_header [OF assms(2) q1]
          parse_lines_header [OF assms(3) q2]) simp
  finally show ?thesis
    by (simp add: parseMarkdownFile_def assms(1) Let_def)
qed

lemma parse_no_header:
  assumes "\<forall>l \<in> set (split_lines (file_text f)). \<not> is_header l"
  shows "parseMarkdownFile f = [\<lparr>md_title = file_name f, md_content = trim (file_text f)\<rparr>]"
  using split_lines_not_Nil [of "file_text f"]
  by (simp add: parseMarkdownFile_def Let_def parse_lines_body [OF assms] join_split_lines)

text \<open>
  Claim C6, as the code has it. When the first line of the file is a header line (\<open>#\<close>
  or \<open>##\<close> followed by white space) and there is exactly one more header line, the
  import yields exactly two sections; the content of each is its header line and the
  lines up to the next header, joined by line breaks and trimmed, so it begins with the
  header line (with the header line less its trailing white space when only white space
  follows it in the section). Lines before the first header make one more section in
  front, titled with the file name. A file without header lines yields exactly one
  section, titled with the file name, whose content is the full text trimmed.
\<close>

theorem parseMarkdownFile_sections:
  "(split_lines (file_text f) = h1 # b1 @ h2 # b2 \<and> is_header h1 \<and> is_header h2 \<and>
    (\<forall>l \<in> set (b1 @ b2). \<not> is_header l) \<longrightarrow>
      parseMarkdownFile f =
        [\<lparr>md_title = trim (strip_hashes h1), md_content = trim (join newline (h1 # b1))\<rparr>,
         \<lparr>md_title = trim (strip_hashes h2), md_content = trim (join newline (h2 # b2))\<rparr>] \<and>
      prefix (trim h1) (md_content (parseMarkdownFile f ! 0)) \<and>
      prefix (trim h2) (md_content (parseMarkdownFile f ! 1)) \<and>
      ((\<exists>c \<in> set (join newline b1). \<not> is_space c) \<longrightarrow>
         prefix h1 (md_content (parseMarkdownFile f ! 0))) \<and>
      ((\<exists>c \<in> set (join newline b2). \<not> is_space c) \<longrightarrow>
         prefix h2 (md_content (parseMarkdownFile f ! 1)))) \<and>
   (pre \<noteq> [] \<and> split_lines (file_text f) = pre @ h1 # b1 @ h2 # b2 \<and>
    is_header h1 \<and> is_header h2 \<and> (\<forall>l \<in> set (pre @ b1 @ b2). \<not> is_header l) \<longrightarrow>
      parseMarkdownFile f =
        [\<lparr>md_title = file_name f, md_content = trim (join newline pre)\<rparr>,
         \<lparr>md_title = trim (strip_hashes h1), md_content = trim (join newline (h1 # b1))\<rparr>,
         \<lparr>md_title = trim (strip_hashes h2), md_content = trim (join newline (h2 # b2))\<rparr>]) \<and>
   ((\<forall>l \<in> set (split_lines (file_text f)). \<not> is_header l) \<longrightarrow>
      parseMarkdownFile f = [\<lparr>md_title = file_name f, md_content = trim (file_text f)\<rparr>])"
proof (intro conjI impI)
  assume a: "split_lines (file_text f) = h1 # b1 @ h2 # b2 \<and> is_header h1 \<and> is_header h2 \<and>
    (\<forall>l \<in> set (b1 @ b2). \<not> is_header l)"
  then have s: "split_lines (file_text f) = [] @ h1 # b1 @ h2 # b2"
    and n: "\<forall>l \<in> set ([] @ b1 @ b2). \<not> is_header l"
    by simp_all
  from a have i1: "is_header h1" and i2: "is_header h2"
    by simp_all
  from parse_two_headers [OF s i1 i2 n]
  show r: "parseMarkdownFile f =
        [\<lparr>md_title = trim (strip_hashes h1), md_content = trim (join newline (h1 # b1))\<rparr>,
         \<lparr>md_title = trim (strip_hashes h2), md_content = trim (join newline (h2 # b2))\<rparr>]"
    by simp
  show "prefix (trim h1) (md_content (parseMarkdownFile f ! 0))"
    using section_content_prefix(1) [OF i1, of b1] by (simp add: r)
  show "prefix (trim h2) (md_content (parseMarkdownFile f ! 1))"
    using section_content_prefix(1) [OF i2, of b2] by (simp add: r)
  show "prefix h1 (md_content (parseMarkdownFile f ! 0))"
    if "\<exists>c \<in> set (join newline b1). \<not> is_space c"
    using section_content_prefix(2) [OF i1 that] by (simp add: r)
  show "prefix h2 (md_content (parseMarkdownFile f ! 1))"
    if "\<exists>c \<in> set (join newline b2). \<not> is_space c"
    using section_content_prefix(2) [OF i2 that] by (simp add: r)
next
  assume a: "pre \<noteq> [] \<and> split_lines (file_text f) = pre @ h1 # b1 @ h2 # b2 \<and>
    is_header h1 \<and> is_header h2 \<and> (\<forall>l \<in> set (pre @ b1 @ b2). \<not> is_header l)"
  then have "parseMarkdownFile f =
     (if pre = [] then []
      else [\<lparr>md_title = file_name f, md_content = trim (join newline pre)\<rparr>]) @
     [\<lparr>md_title = trim (strip_hashes h1), md_content = trim (join newline (h1 # b1))\<rparr>,
      \<lparr>md_title = trim (strip_hashes h2), md_content = trim (join newline (h2 # b2))\<rparr>]"
    by (intro parse_two_headers) simp_all
  with a show "parseMarkdownFile f =
        [\<lparr>md_title = file_name f, md_content = trim (join newline pre)\<rparr>,
         \<lparr>md_title = trim (strip_hashes h1), md_content = trim (join newline (h1 # b1))\<rparr>,
         \<lparr>md_title = trim (strip_hashes h2), md_content = trim (join newline (h2 # b2))\<rparr>]"
    by simp
next
  assume "\<forall>l \<in> set (split_lines (file_text f)). \<not> is_header l"
  then show "parseMarkdownFile f = [\<lparr>md_title = file_name f, md_content = trim (file_text f)\<rparr>]"
    by (rule parse_no_header)
qed

lemma example_md_lines:
  "split_lines (file_text example_md) = ''# Basics'' # [''one''] @ ''## Details'' # [''two'']"
  "split_lines (file_text example_md_plain) = [''plain text'', []]"
  "split_lines (file_text example_md_preamble) =
     [''Intro'', ''# Basics'', ''one'', ''## Details'', ''two'']"
  by (simp_all add: example_md_def example_md_plain_def example_md_preamble_def newline_def)

lemma example_md_headers:
  "is_header ''# Basics''" "is_header ''## Details''"
  "\<not> is_header ''one''" "\<not> is_header ''two''" "\<not> is_header ''Intro''"
  "\<not> is_header ''plain text''" "\<not> is_header []"
  by (simp_all add: is_header_def is_space_def)

theorem parseMarkdownFile_sections_witness:
  "split_lines (file_text example_md) = ''# Basics'' # [''one''] @ ''## Details'' # [''two''] \<and>
   is_header ''# Basics'' \<and> is_header ''## Details'' \<and>
   parseMarkdownFile example_md =
     [\<lparr>md_title = ''Basics'', md_content = ''# Basics'' @ newline @ ''one''\<rparr>,
      \<lparr>md_title = ''Details'', md_content = ''## Details'' @ newline @ ''two''\<rparr>] \<and>
   prefix ''# Basics'' (md_content (parseMarkdownFile example_md ! 0)) \<and>
   prefix ''## Details'' (md_content (parseMarkdownFile example_md ! 1)) \<and>
   split_lines (file_text example_md_preamble) =
     [''Intro''] @ ''# Basics'' # [''one''] @ ''## Details'' # [''two''] \<and>
   parseMarkdownFile example_md_preamble =
     [\<lparr>md_title = ''notes.md'', md_content = ''Intro''\<rparr>,
      \<lparr>md_title = ''Basics'', md_content = ''# Basics'' @ newline @ ''one''\<rparr>,
      \<lparr>md_title = ''Details'', md_content = ''## Details'' @ newline @ ''two''\<rparr>] \<and>
   parseMarkdownFile example_md_plain = [\<lparr>md_title = ''plain.md'', md_content = ''plain text''\<rparr>]"
proof -
  note t = parseMarkdownFile_sections
    [of example_md "''# Basics''" "[''one'']" "''## Details''" "[''two'']" "[]"]
  note u = parseMarkdownFile_sections [of example_md_plain "[]" "[]" "[]" "[]" "[]"]
  note v = parseMarkdownFile_sections
    [of example_md_preamble "''# Basics''" "[''one'']" "''## Details''" "[''two'']" "[''Intro'']"]
  have ant: "split_lines (file_text example_md) = ''# Basics'' # [''one''] @ ''## Details'' # [''two''] \<and>
    is_header ''# Basics'' \<and> is_header ''## Details'' \<and>
    (\<forall>l \<in> set ([''one''] @ [''two'']). \<not> is_header l)"
    using example_md_lines(1) example_md_headers by simp
  have ns: "\<exists>c \<in> set (join newline [''one'']). \<not> is_space c"
    "\<exists>c \<in> set (join newline [''two'']). \<not> is_space c"
    by (simp_all add: is_space_def)
  have p: "split_lines (file_text example_md_preamble) =
     [''Intro''] @ ''# Basics'' # [''one''] @ ''## Details'' # [''two'']"
    by (simp add: example_md_lines)
  have antp: "[''Intro''] \<noteq> [] \<and>
    split_lines (file_text example_md_preamble) =
      [''Intro''] @ ''# Basics'' # [''one''] @ ''## Details'' # [''two''] \<and>
    is_header ''# Basics'' \<and> is_header ''## Details'' \<and>
    (\<forall>l \<in> set ([''Intro''] @ [''one''] @ [''two'']). \<not> is_header l)"
    using p example_md_headers by simp
  have antn: "\<forall>l \<in> set (split_lines (file_text example_md_plain)). \<not> is_header l"
    using example_md_headers by (simp add: example_md_lines(2))
  from t ant have "parseMarkdownFile example_md =
        [\<lparr>md_title = trim (strip_hashes ''# Basics''),
          md_content = trim (join newline (''# Basics'' # [''one'']))\<rparr>,
         \<lparr>md_title = trim (strip_hashes ''## Details''),
          md_content = trim (join newline (''## Details'' # [''two'']))\<rparr>]"
    by blast
  then have a: "parseMarkdownFile example_md =
     [\<lparr>md_title = ''Basics'', md_content = ''# Basics'' @ newline @ ''one''\<rparr>,
      \<lparr>md_title = ''Details'', md_content = ''## Details'' @ newline @ ''two''\<rparr>]"
    by (simp add: trim_def strip_hashes_def is_space_def newline_def)
  from t ant ns have b: "prefix ''# Basics'' (md_content (parseMarkdownFile example_md ! 0))"
    "prefix ''## Details'' (md_content (parseMarkdownFile example_md ! 1))"
    by blast+
  from v antp have "parseMarkdownFile example_md_preamble =
        [\<lparr>md_title = file_name example_md_preamble, md_content = trim (join newline [''Intro''])\<rparr>,
         \<lparr>md_title = trim (strip_hashes ''# Basics''),
          md_content = trim (join newline (''# Basics'' # [''one'']))\<rparr>,
         \<lparr>md_title = trim (strip_hashes ''## Details''),
          md_content = trim (join newline (''## Details'' # [''two'']))\<rparr>]"
    by blast
  then have c: "parseMarkdownFile example_md_preamble =
     [\<lparr>md_title = ''notes.md'', md_content = ''Intro''\<rparr>,
      \<lparr>md_title = ''Basics'', md_content = ''# Basics'' @ newline @ ''one''\<rparr>,
      \<lparr>md_title = ''Details'', md_content = ''## Details'' @ newline @ ''two''\<rparr>]"
    by (simp add: example_md_preamble_def trim_def strip_hashes_def is_space_def newline_def)
  from u antn have "parseMarkdownFile example_md_plain =
      [\<lparr>md_title = file_name example_md_plain, md_content = trim (file_text example_md_plain)\<rparr>]"
    by blast
  then have d: "parseMarkdownFile example_md_plain =
     [\<lparr>md_title = ''plain.md'', md_content = ''plain text''\<rparr>]"
    by (simp add: example_md_plain_def trim_def is_space_def newline_def)
  from a b c d p example_md_lines(1) example_md_headers(1,2) show ?thesis
    by blast
qed

text \<open>
  The claim as first stated fails in two places: a file with two headers and a line of
  text before the first one yields three sections, and the single section of a file
  without headers holds the trimmed text, not the full text.
\<close>

theorem parseMarkdownFile_preamble_and_trim:
  "filter is_header (split_lines (file_text example_md_preamble)) = [''# Basics'', ''## Details''] \<and>
   length (parseMarkdownFile example_md_preamble) = 3 \<and>
   filter is_header (split_lines (file_text example_md_plain)) = [] \<and>
   map md_content (parseMarkdownFile example_md_plain) = [''plain text''] \<and>
   file_text example_md_plain = ''plain text'' @ newline \<and>
   md_content (hd (parseMarkdownFile example_md_plain)) \<noteq> file_text example_md_plain"
proof -
  have a: "filter is_header (split_lines (file_text example_md_preamble)) =
           [''# Basics'', ''## Details'']"
    by (simp add: example_md_lines example_md_headers)
  have "split_lines (file_text example_md_preamble) =
          [''Intro''] @ ''# Basics'' # [''one''] @ ''## Details'' # [''two'']"
    by (simp add: example_md_lines)
  then have "parseMarkdownFile example_md_preamble =
     (if [''Intro''] = [] then []
      else [\<lparr>md_title = file_name example_md_preamble,
              md_content = trim (join newline [''Intro''])\<rparr>]) @
     [\<lparr>md_title = trim (strip_hashes ''# Basics''),
       md_content = trim (join newline (''# Basics'' # [''one'']))\<rparr>,
      \<lparr>md_title = trim (strip_hashes ''## Details''),
       md_content = trim (join newline (''## Details'' # [''two'']))\<rparr>]"
    by (rule parse_two_headers) (simp_all add: example_md_headers)
  then have b: "length (parseMarkdownFile example_md_preamble) = 3"
    by simp
  have c: "filter is_header (split_lines (file_text example_md_plain)) = []"
    by (simp add: example_md_lines example_md_headers)
  have "parseMarkdownFile example_md_plain =
          [\<lparr>md_title = file_name example_md_plain, md_content = trim (file_text example_md_plain)\<rparr>]"
    by (rule parse_no_header) (simp add: example_md_lines example_md_headers)
  then have d: "parseMarkdownFile example_md_plain =
          [\<lparr>md_title = ''plain.md'', md_content = ''plain text''\<rparr>]"
    by (simp add: example_md_plain_def trim_def is_space_def newline_def)
  have e: "file_text example_md_plain = ''plain text'' @ newline"
    by (simp add: example_md_plain_def)
  from a b c d e show ?thesis
    by (simp add: newline_def)
qed

section \<open>Verification: translation and generation fallbacks\<close>

lemma translateContent_total: "\<exists>r. translateContent env text targetLang = Inr r"
  by (simp add: translateContent_def split: gen_outcome.splits)

text \<open>
  Claim C7, as the code has it. \<open>translateContent\<close> never throws: it always returns a
  string, and that string is the input text itself when no API key is configured, when the
  service call throws, or when the response carries no text. \<open>generateAIResponse\<close> throws
  "API Key not found in environment variables." when no API key is configured; with a key
  it never throws, and it returns the fixed apology string when the service call throws.
\<close>

theorem translation_and_generation_fallbacks:
  "(\<exists>r. translateContent env text targetLang = Inr r) \<and>
   (\<not> truthy (apiKey env) \<longrightarrow> translateContent env text targetLang = Inr text) \<and>
   ((\<exists>e. generateContent env (translate_request text targetLang) = Throws e) \<longrightarrow>
      translateContent env text targetLang = Inr text) \<and>
   ((\<exists>t. generateContent env (translate_request text targetLang) = Responds t \<and> \<not> truthy t) \<longrightarrow>
      translateContent env text targetLang = Inr text) \<and>
   (truthy (apiKey env) \<longrightarrow>
      (\<exists>r. generateAIResponse env history context userPrompt useThinking = Inr r)) \<and>
   (truthy (apiKey env) \<and>
    (\<exists>e. generateContent env (generate_request context userPrompt useThinking) = Throws e) \<longrightarrow>
      generateAIResponse env history context userPrompt useThinking = Inr apology) \<and>
   (\<not> truthy (apiKey env) \<longrightarrow>
      generateAIResponse env history context userPrompt useThinking =
        Inl (Error ''API Key not found in environment variables.''))"
proof (intro conjI impI)
  show "\<exists>r. translateContent env text targetLang = Inr r"
    by (rule translateContent_total)
  show "translateContent env text targetLang = Inr text" if "\<not> truthy (apiKey env)"
    using that by (simp add: translateContent_def)
  show "translateContent env text targetLang = Inr text"
    if "\<exists>e. generateContent env (translate_request text targetLang) = Throws e"
    using that by (auto simp add: translateContent_def)
  show "translateContent env text targetLang = Inr text"
    if "\<exists>t. generateContent env (translate_request text targetLang) = Responds t \<and> \<not> truthy t"
    using that by (auto simp add: translateContent_def or_else_def)
  show "\<exists>r. generateAIResponse env history context userPrompt useThinking = Inr r"
    if "truthy (apiKey env)"
    using that by (simp add: generateAIResponse_def split: gen_outcome.splits)
  show "generateAIResponse env history context userPrompt useThinking = Inr apology"
    if "truthy (apiKey env) \<and>
        (\<exists>e. generateContent env (generate_request context userPrompt useThinking) = Throws e)"
    using that by (auto simp add: generateAIResponse_def)
  show "generateAIResponse env history context userPrompt useThinking =
        Inl (Error ''API Key not found in environment variables.'')"
    if "\<not> truthy (apiKey env)"
    using that by (simp add: generateAIResponse_def)
qed

lemma example_env_facts:
  "truthy (apiKey example_env_failing)" "\<not> truthy (apiKey example_env_no_key)"
  "generateContent example_env_failing r = Throws (Error ''503 Service Unavailable'')"
  "truthy (apiKey example_env_silent)" "generateContent example_env_silent r = Responds None"
  "\<not> truthy None"
  by (simp_all add: example_env_failing_def example_env_no_key_def example_env_silent_def
        truthy_def failing_service_def silent_service_def)

theorem translation_and_generation_fallbacks_witness:
  "truthy (apiKey example_env_failing) \<and>
   generateContent example_env_failing (translate_request ''Bonjour'' ''English'') =
     Throws (Error ''503 Service Unavailable'') \<and>
   translateContent example_env_failing ''Bonjour'' ''English'' = Inr ''Bonjour'' \<and>
   generateAIResponse example_env_failing [] ''context'' ''question'' False = Inr apology \<and>
   \<not> truthy (apiKey example_env_no_key) \<and>
   translateContent example_env_no_key ''Bonjour'' ''English'' = Inr ''Bonjour'' \<and>
   generateAIResponse example_env_no_key [] ''context'' ''question'' False =
     Inl (Error ''API Key not found in environment variables.'') \<and>
   generateContent example_env_silent (translate_request ''Bonjour'' ''English'') = Responds None \<and>
   translateContent example_env_silent ''Bonjour'' ''English'' = Inr ''Bonjour''"
proof -
  note t = translation_and_generation_fallbacks
    [of example_env_failing "''Bonjour''" "''English''" "[]" "''context''" "''question''" False]
  note u = translation_and_generation_fallbacks
    [of example_env_no_key "''Bonjour''" "''English''" "[]" "''context''" "''question''" False]
  note v = translation_and_generation_fallbacks
    [of example_env_silent "''Bonjour''" "''English''" "[]" "''context''" "''question''" False]
  have a: "translateContent example_env_failing ''Bonjour'' ''English'' = Inr ''Bonjour''"
    using t by (simp add: example_env_facts)
  have b: "generateAIResponse example_env_failing [] ''context'' ''question'' False = Inr apology"
    using t by (simp add: example_env_facts)
  have c: "translateContent example_env_no_key ''Bonjour'' ''English'' = Inr ''Bonjour''"
    using u by (simp add: example_env_facts)
  have d: "generateAIResponse example_env_no_key [] ''context'' ''question'' False =
     Inl (Error ''API Key not found in environment variables.'')"
    using u by (simp add: example_env_facts)
  have e: "translateContent example_env_silent ''Bonjour'' ''English'' = Inr ''Bonjour''"
    using v by (simp add: example_env_facts)
  from a b c d e example_env_facts(1,2)
    example_env_facts(3) [of "translate_request ''Bonjour'' ''English''"]
    example_env_facts(5) [of "translate_request ''Bonjour'' ''English''"]
  show ?thesis by blast
qed

text \<open>
  The claim as first stated says the generation never throws past its boundary. Without
  an API key it does.
\<close>

theorem generateAIResponse_throws_without_key:
  "apiKey example_env_no_key = None \<and>
   generateAIResponse example_env_no_key [] ''context'' ''question'' False =
     Inl (Error ''API Key not found in environment variables.'')"
  by (simp add: generateAIResponse_def example_env_no_key_def truthy_def)

section \<open>Verification: batch import\<close>

lemma translate_sections_total:
  "translate_sections env lang ss =
     Inr (map (\<lambda>s. s\<lparr>sec_text := (case translateContent env (sec_text s) lang of
                                      Inr t \<Rightarrow> t | Inl e \<Rightarrow> sec_text s)\<rparr>) ss)"
proof (induction ss)
  case Nil
  then show ?case by simp
next
  case (Cons s ss)
  obtain r where "translateContent env (sec_text s) lang = Inr r"
    using translateContent_total [of env "sec_text s" lang] by blast
  with Cons show ?case by simp
qed

lemma processed_sections:
  "(if lang \<noteq> ''Original'' then translate_sections env lang ss else Inr ss) =
     Inr (map (\<lambda>s. s\<lparr>sec_text := processed_text env lang (sec_text s)\<rparr>) ss)"
  by (simp add: translate_sections_total processed_text_def)

lemma process_files_skip:
  "\<forall>f \<in> set us. \<not> supported f \<Longrightarrow>
   process_files env now lang i (us @ fs) acc x =
   process_files env now lang (i + length us) fs acc x"
  by (induction us arbitrary: i) (simp_all add: supported_def)

lemma process_files_take:
  "supported f \<Longrightarrow> extract_sections f = Inr ss \<Longrightarrow>
   process_files env now lang i (f # fs) acc x =
   process_files env now lang (i + 1) fs
     (acc @ map (file_card now lang i x)
              (enumerate 0 (map (\<lambda>s. s\<lparr>sec_text := processed_text env lang (sec_text s)\<rparr>) ss)))
     (x + 650)"
  by (auto simp add: supported_def processed_sections Let_def)

lemma process_two_files:
  assumes "\<forall>f \<in> set (us0 @ us1 @ us2). \<not> supported f"
    and "supported f1" and "supported f2"
    and "extract_sections f1 = Inr s1" and "extract_sections f2 = Inr s2"
  shows "process_files env now lang 0 (us0 @ f1 # us1 @ f2 # us2) [] 100 =
     Inr (map (file_card now lang (length us0) 100)
            (enumerate 0 (map (\<lambda>s. s\<lparr>sec_text := processed_text env lang (sec_text s)\<rparr>) s1)) @
          map (file_card now lang (length us0 + 1 + length us1) 750)
            (enumerate 0 (map (\<lambda>s. s\<lparr>sec_text := processed_text env lang (sec_text s)\<rparr>) s2)))"
proof -
  from assms(1) have u0: "\<forall>f \<in> set us0. \<not> supported f" and u1: "\<forall>f \<in> set us1. \<not> supported f"
    and u2: "\<forall>f \<in> set us2. \<not> supported f"
    by auto
  have e: "process_files env now lang i (us2 @ []) acc x = Inr acc" for i acc x
    by (simp only: process_files_skip [OF u2] process_files.simps)
  show ?thesis
    by (simp only: process_files_skip [OF u0] process_files_take [OF assms(2,4)]
          process_files_skip [OF u1] process_files_take [OF assms(3,5)] e [simplified])
       simp
qed

lemma digit_char_cases:
  assumes "d < 10"
  shows "is_digit (digit_char d) \<and> digit_val (digit_char d) = d"
proof -
  from assms have "d \<in> {0, 1, 2, 3, 4, 5, 6, 7, 8, 9}" by auto
  then show ?thesis
    by (auto simp add: is_digit_def digit_val_def digit_char_def)
qed

lemma string_of_nat_digits: "\<forall>c \<in> set (string_of_nat n). is_digit c"
proof (induction n rule: string_of_nat.induct)
  case (1 n)
  show ?case
  proof (cases "n < 10")
    case True
    then show ?thesis
      by (subst string_of_nat.simps) (simp add: digit_char_cases)
  next
    case False
    with 1 show ?thesis
      by (subst string_of_nat.simps) (simp add: digit_char_cases)
  qed
qed

lemma nat_of_string_of_nat: "nat_of_string (string_of_nat n) = n"
proof (induction n rule: string_of_nat.induct)
  case (1 n)
  show ?case
  proof (cases "n < 10")
    case True
    then show ?thesis
      by (subst string_of_nat.simps) (simp add: nat_of_string_def digit_char_cases)
  next
    case False
    with 1 have "nat_of_string (string_of_nat (n div 10)) = n div 10" by simp
    with False show ?thesis
      by (subst string_of_nat.simps) (simp add: nat_of_string_def digit_char_cases)
  qed
qed

lemma string_of_nat_inj: "string_of_nat m = string_of_nat n \<Longrightarrow> m = n"
  by (metis nat_of_string_of_nat)

lemma digits_then_dash:
  assumes "\<forall>c \<in> set a. is_digit c" and "\<forall>c \<in> set b. is_digit c"
    and "a @ CHR ''-'' # r = b @ CHR ''-'' # r'"
  shows "a = b \<and> r = r'"
proof -
  have nd: "\<not> is_digit CHR ''-''"
    by (simp add: is_digit_def)
  have "takeWhile is_digit (a @ CHR ''-'' # r) = a" "takeWhile is_digit (b @ CHR ''-'' # r') = b"
    using assms(1,2) nd by (simp_all add: takeWhile_append2)
  with assms(3) have "a = b" by simp
  with assms(3) show ?thesis by simp
qed

lemma file_card_id_inj:
  assumes "card_id (file_card now lang i x (idx, s)) = card_id (file_card now' lang' i' x' (idx', s'))"
  shows "i = i' \<and> idx = idx'"
proof -
  from assms have e: "string_of_nat i @ CHR ''-'' # (''section-'' @ string_of_nat idx @ CHR ''-'' # string_of_nat (now i idx)) =
      string_of_nat i' @ CHR ''-'' # (''section-'' @ string_of_nat idx' @ CHR ''-'' # string_of_nat (now' i' idx'))"
    by (simp add: file_card_def)
  from digits_then_dash [OF string_of_nat_digits string_of_nat_digits e]
  have a: "string_of_nat i = string_of_nat i'"
    and b: "string_of_nat idx @ CHR ''-'' # string_of_nat (now i idx) =
            string_of_nat idx' @ CHR ''-'' # string_of_nat (now' i' idx')"
    by simp_all
  from digits_then_dash [OF string_of_nat_digits string_of_nat_digits b]
  have "string_of_nat idx = string_of_nat idx'" by simp
  with a show ?thesis by (simp add: string_of_nat_inj)
qed


lemma enumerate_mem: "(idx, s) \<in> set (enumerate n ps) \<Longrightarrow> n \<le> idx \<and> s = ps ! (idx - n)"
  by (auto simp add: in_set_enumerate_eq)

lemma file_cards_distinct:
  "distinct (map card_id (map (file_card now lang i x) (enumerate 0 ps)))"
proof -
  have "inj_on (\<lambda>e. card_id (file_card now lang i x e)) (set (enumerate 0 ps))"
  proof (rule inj_onI)
    fix a b
    assume a: "a \<in> set (enumerate 0 ps)" and b: "b \<in> set (enumerate 0 ps)"
      and e: "card_id (file_card now lang i x a) = card_id (file_card now lang i x b)"
    obtain ia sa ib sb where ab: "a = (ia, sa)" "b = (ib, sb)"
      by (cases a, cases b) simp
    from e ab file_card_id_inj [of now lang i x ia sa now lang i x ib sb] have "ia = ib"
      by simp
    with a b ab enumerate_mem [of ia sa 0 ps] enumerate_mem [of ib sb 0 ps] show "a = b"
      by simp
  qed
  moreover have "distinct (enumerate 0 ps)"
    by (simp add: distinct_enumerate)
  ultimately show ?thesis
    by (simp add: distinct_map comp_def)
qed

lemma process_files_distinct:
  assumes "distinct (map card_id acc)"
    and "\<forall>c \<in> set acc. \<exists>j < i. \<exists>x idx s. c = file_card now lang j x (idx, s)"
    and "process_files env now lang i fs acc x = Inr cs"
  shows "distinct (map card_id cs)"
  using assms
proof (induction fs arbitrary: i acc x)
  case Nil
  then show ?case by simp
next
  case (Cons f fs)
  show ?case
  proof (cases "supported f")
    case False
    with Cons.prems(3) have r: "process_files env now lang (i + 1) fs acc x = Inr cs"
      by (simp add: supported_def)
    have "\<forall>c \<in> set acc. \<exists>j < i + 1. \<exists>x idx s. c = file_card now lang j x (idx, s)"
    proof
      fix c
      assume "c \<in> set acc"
      with Cons.prems(2) obtain j xa idxa sa
        where "j < i" and "c = file_card now lang j xa (idxa, sa)"
        by blast
      then show "\<exists>j < i + 1. \<exists>x idx s. c = file_card now lang j x (idx, s)"
        by (intro exI [of _ j]) auto
    qed
    from Cons.IH [OF Cons.prems(1) this r] show ?thesis .
  next
    case True
    with Cons.prems(3) obtain ss where ss: "extract_sections f = Inr ss"
      by (cases "extract_sections f") (auto simp add: supported_def Let_def)
    let ?ps = "map (\<lambda>s. s\<lparr>sec_text := processed_text env lang (sec_text s)\<rparr>) ss"
    let ?new = "map (file_card now lang i x) (enumerate 0 ?ps)"
    from Cons.prems(3) have r: "process_files env now lang (i + 1) fs (acc @ ?new) (x + 650) = Inr cs"
      by (simp only: process_files_take [OF True ss])
    have d: "distinct (map card_id (acc @ ?new))"
    proof -
      have "card_id a \<noteq> card_id b" if "a \<in> set acc" and "b \<in> set ?new" for a b
      proof -
        from that(1) Cons.prems(2) obtain j xa idxa sa
          where j: "j < i" and a: "a = file_card now lang j xa (idxa, sa)"
          by blast
        from that(2) obtain idxb sb where b: "b = file_card now lang i x (idxb, sb)"
          by auto
        from j a b file_card_id_inj [of now lang j xa idxa sa now lang i x idxb sb]
        show ?thesis by auto
      qed
      then have "set (map card_id acc) \<inter> set (map card_id ?new) = {}"
        by auto
      with Cons.prems(1) file_cards_distinct [of now lang i x ?ps] show ?thesis
        by (simp only: map_append distinct_append simp_thms)
    qed
    have o: "\<forall>c \<in> set (acc @ ?new). \<exists>j < i + 1. \<exists>x idx s. c = file_card now lang j x (idx, s)"
    proof
      fix c
      assume "c \<in> set (acc @ ?new)"
      then consider "c \<in> set acc" | "c \<in> set ?new" by auto
      then show "\<exists>j < i + 1. \<exists>x idx s. c = file_card now lang j x (idx, s)"
      proof cases
        case 1
        with Cons.prems(2) obtain j xa idxa sa
          where "j < i" and "c = file_card now lang j xa (idxa, sa)"
          by blast
        then show ?thesis by (intro exI [of _ j]) auto
      next
        case 2
        then obtain idxb sb where "c = file_card now lang i x (idxb, sb)"
          by auto
        then show ?thesis by (intro exI [of _ i]) auto
      qed
    qed
    from Cons.IH [OF d o r] show ?thesis .
  qed
qed

lemma sequential_connections_nth:
  "k < length cs - 1 \<Longrightarrow>
   sequential_connections cs ! k =
     \<lparr>conn_id = ''conn-auto-'' @ string_of_nat k, fromCardId = card_id (cs ! k),
      toCardId = card_id (cs ! (k + 1)), conn_label = None\<rparr>"
  by (simp add: sequential_connections_def)

lemma file_card_fields:
  "card_content (file_card now lang i x (idx, s)) = sec_text s"
  "card_title (file_card now lang i x (idx, s)) = sec_title s @ '' '' @ language_suffix lang"
  "card_id (file_card now lang i x (idx, s)) =
     ''file-'' @ string_of_nat i @ ''-section-'' @ string_of_nat idx @ ''-'' @ string_of_nat (now i idx)"
  "card_x (file_card now lang i x (idx, s)) = x"
  "card_y (file_card now lang i x (idx, s)) = 100 + real idx * 660"
  by (simp_all add: file_card_def language_suffix_def)

lemma length_three: "length xs = 3 \<Longrightarrow> \<exists>a b c. xs = [a, b, c]"
  by (cases xs; simp; rename_tac ys; case_tac ys; simp; rename_tac zs; case_tac zs; simp)

text \<open>
  Claim C8. In a batch whose supported files are exactly two (unsupported files may stand
  before, between and after them), each yielding three sections from the extraction step,
  the import raises no alert and leaves exactly six cards and exactly five connections;
  connection \<open>k\<close> is \<open>conn-auto-k\<close> and links card \<open>k\<close> to card \<open>k + 1\<close>; the cards
  carry, in this order, the three sections of the first file and then the three sections
  of the second file, the first file's in the column at x = 100 and the second's at x = 750.
\<close>

theorem import_two_files_of_three_sections:
  assumes "files = us0 @ f1 # us1 @ f2 # us2"
    and "\<forall>f \<in> set (us0 @ us1 @ us2). \<not> supported f"
    and "supported f1" and "supported f2"
    and "extract_sections f1 = Inr s1" and "extract_sections f2 = Inr s2"
    and "length s1 = 3" and "length s2 = 3"
  shows "fst (handleFileUpload env now lang files st) = None \<and>
         length (cards (snd (handleFileUpload env now lang files st))) = 6 \<and>
         length (connections (snd (handleFileUpload env now lang files st))) = 5 \<and>
         (\<forall>k < 5. connections (snd (handleFileUpload env now lang files st)) ! k =
            \<lparr>conn_id = ''conn-auto-'' @ string_of_nat k,
             fromCardId = card_id (cards (snd (handleFileUpload env now lang files st)) ! k),
             toCardId = card_id (cards (snd (handleFileUpload env now lang files st)) ! (k + 1)),
             conn_label = None\<rparr>) \<and>
         map card_content (cards (snd (handleFileUpload env now lang files st))) =
           map (\<lambda>s. processed_text env lang (sec_text s)) (s1 @ s2) \<and>
         map card_title (cards (snd (handleFileUpload env now lang files st))) =
           map (\<lambda>s. sec_title s @ '' '' @ language_suffix lang) (s1 @ s2) \<and>
         map card_x (cards (snd (handleFileUpload env now lang files st))) =
           [100, 100, 100, 750, 750, 750] \<and>
         map card_y (cards (snd (handleFileUpload env now lang files st))) =
           [100, 760, 1420, 100, 760, 1420]"
proof -
  let ?p = "\<lambda>s. s\<lparr>sec_text := processed_text env lang (sec_text s)\<rparr>"
  let ?i1 = "length us0" and ?i2 = "length us0 + 1 + length us1"
  from assms(7) obtain a b c where s1: "s1 = [a, b, c]"
    using length_three by blast
  from assms(8) obtain d e g where s2: "s2 = [d, e, g]"
    using length_three by blast
  define cs where "cs =
     [file_card now lang ?i1 100 (0, ?p a), file_card now lang ?i1 100 (1, ?p b),
      file_card now lang ?i1 100 (2, ?p c), file_card now lang ?i2 750 (0, ?p d),
      file_card now lang ?i2 750 (1, ?p e), file_card now lang ?i2 750 (2, ?p g)]"
  have "process_files env now lang 0 files [] 100 = Inr cs"
    unfolding assms(1) process_two_files [OF assms(2-6)]
    by (simp add: s1 s2 cs_def numeral_2_eq_2)
  moreover have "length files \<noteq> 0"
    by (simp add: assms(1))
  moreover have len: "length cs = 6"
    by (simp add: cs_def)
  ultimately have r: "handleFileUpload env now lang files st =
      (None, st\<lparr>cards := cs, connections := sequential_connections cs\<rparr>)"
    by (simp add: handleFileUpload_def)
  have conns: "\<forall>k < 5. sequential_connections cs ! k =
            \<lparr>conn_id = ''conn-auto-'' @ string_of_nat k, fromCardId = card_id (cs ! k),
             toCardId = card_id (cs ! (k + 1)), conn_label = None\<rparr>"
    using sequential_connections_nth [of _ cs] by (simp add: len)
  have "length (sequential_connections cs) = 5"
    by (simp add: sequential_connections_def len)
  moreover have "map card_content cs = map (\<lambda>s. processed_text env lang (sec_text s)) (s1 @ s2)"
    by (simp add: cs_def s1 s2 file_card_fields)
  moreover have "map card_title cs = map (\<lambda>s. sec_title s @ '' '' @ language_suffix lang) (s1 @ s2)"
    by (simp add: cs_def s1 s2 file_card_fields)
  moreover have "map card_x cs = [100, 100, 100, 750, 750, 750]"
    by (simp add: cs_def file_card_fields)
  moreover have "map card_y cs = [100, 760, 1420, 100, 760, 1420]"
    by (simp add: cs_def file_card_fields)
  ultimately show ?thesis
    using len conns by (simp add: r)
qed

lemma example_import_facts:
  "\<not> supported example_txt" "supported example_md_three" "supported example_pdf_three"
  by code_simp+

lemma example_import_sections:
  "extract_sections example_md_three =
     Inr [\<lparr>sec_title = ''a.md - A'', sec_text = ''# A'' @ newline @ ''one''\<rparr>,
          \<lparr>sec_title = ''a.md - B'', sec_text = ''## B'' @ newline @ ''two''\<rparr>,
          \<lparr>sec_title = ''a.md - C'', sec_text = ''## C'' @ newline @ ''three''\<rparr>]"
  "extract_sections example_pdf_three =
     Inr [\<lparr>sec_title = ''b.PDF - Page 1'', sec_text = ''first page''\<rparr>,
          \<lparr>sec_title = ''b.PDF - Page 2'', sec_text = ''second''\<rparr>,
          \<lparr>sec_title = ''b.PDF - Page 3'', sec_text = ''third''\<rparr>]"
  by code_simp+

theorem import_two_files_of_three_sections_witness:
  "[example_txt, example_md_three, example_pdf_three] =
     [example_txt] @ example_md_three # [] @ example_pdf_three # [] \<and>
   \<not> supported example_txt \<and> supported example_md_three \<and> supported example_pdf_three \<and>
   length (cards (snd (handleFileUpload example_env_no_key example_clock ''Original''
                         [example_txt, example_md_three, example_pdf_three] example_state))) = 6 \<and>
   length (connections (snd (handleFileUpload example_env_no_key example_clock ''Original''
                         [example_txt, example_md_three, example_pdf_three] example_state))) = 5 \<and>
   map card_content (cards (snd (handleFileUpload example_env_no_key example_clock ''Original''
                         [example_txt, example_md_three, example_pdf_three] example_state))) =
     [''# A'' @ newline @ ''one'', ''## B'' @ newline @ ''two'', ''## C'' @ newline @ ''three'',
      ''first page'', ''second'', ''third'']"
proof -
  let ?files = "[example_txt, example_md_three, example_pdf_three]"
  have d: "?files = [example_txt] @ example_md_three # [] @ example_pdf_three # []"
    by simp
  have u: "\<forall>f \<in> set ([example_txt] @ [] @ []). \<not> supported f"
    by (simp add: example_import_facts)
  note t = import_two_files_of_three_sections
    [OF d u example_import_facts(2,3) example_import_sections, of example_env_no_key
       example_clock "''Original''" example_state]
  have "length (cards (snd (handleFileUpload example_env_no_key example_clock ''Original''
                         ?files example_state))) = 6"
    using t by simp
  moreover have "length (connections (snd (handleFileUpload example_env_no_key example_clock
                         ''Original'' ?files example_state))) = 5"
    using t by simp
  moreover have "map card_content (cards (snd (handleFileUpload example_env_no_key example_clock
                         ''Original'' ?files example_state))) =
     [''# A'' @ newline @ ''one'', ''## B'' @ newline @ ''two'', ''## C'' @ newline @ ''three'',
      ''first page'', ''second'', ''third'']"
    using t by (simp add: processed_text_def)
  ultimately show ?thesis
    using d example_import_facts by blast
qed

text \<open>The cards an import leaves have pairwise distinct identities, so its connections
  have neither a self-loop nor a duplicate pair.\<close>

lemma sequential_connections_inv:
  assumes "distinct (map card_id cs)"
  shows "no_self_loop (sequential_connections cs) \<and> no_duplicate_pair (sequential_connections cs)"
proof -
  have ne: "card_id (cs ! i) \<noteq> card_id (cs ! j)" if "i < length cs" "j < length cs" "i \<noteq> j" for i j
    using assms that nth_eq_iff_index_eq [of "map card_id cs" i j] by simp
  have "no_self_loop (sequential_connections cs)"
    using ne by (auto simp add: no_self_loop_def sequential_connections_def)
  moreover have "inj_on (\<lambda>i. (card_id (cs ! i), card_id (cs ! (i + 1)))) (set [0 ..< length cs - 1])"
  proof (rule inj_onI)
    fix i j
    assume "i \<in> set [0 ..< length cs - 1]" "j \<in> set [0 ..< length cs - 1]"
      and "(card_id (cs ! i), card_id (cs ! (i + 1))) = (card_id (cs ! j), card_id (cs ! (j + 1)))"
    then have "i < length cs" "j < length cs" "card_id (cs ! i) = card_id (cs ! j)"
      by auto
    with ne [of i j] show "i = j"
      by blast
  qed
  then have "no_duplicate_pair (sequential_connections cs)"
    by (simp add: no_duplicate_pair_def sequential_connections_def distinct_map comp_def)
  ultimately show ?thesis by blast
qed

lemma handleFileUpload_result:
  "snd (handleFileUpload env now lang files st) = st \<or>
   (\<exists>cs. process_files env now lang 0 files [] 100 = Inr cs \<and>
      snd (handleFileUpload env now lang files st) =
        st\<lparr>cards := cs, connections := sequential_connections cs\<rparr>)"
  by (auto simp add: handleFileUpload_def split: sum.splits)

lemma handleFileUpload_inv:
  assumes "no_self_loop (connections st) \<and> no_duplicate_pair (connections st)"
  shows "no_self_loop (connections (snd (handleFileUpload env now lang files st))) \<and>
         no_duplicate_pair (connections (snd (handleFileUpload env now lang files st)))"
  using handleFileUpload_result [of env now lang files st]
proof (elim disjE exE conjE)
  assume "snd (handleFileUpload env now lang files st) = st"
  with assms show ?thesis by simp
next
  fix cs
  assume p: "process_files env now lang 0 files [] 100 = Inr cs"
    and r: "snd (handleFileUpload env now lang files st) =
        st\<lparr>cards := cs, connections := sequential_connections cs\<rparr>"
  have "distinct (map card_id cs)"
    by (rule process_files_distinct [OF _ _ p]) simp_all
  with r sequential_connections_inv [of cs] show ?thesis by simp
qed

lemma handleFileUpload_distinct_ids:
  assumes "distinct (map card_id (cards st))"
  shows "distinct (map card_id (cards (snd (handleFileUpload env now lang files st))))"
  using handleFileUpload_result [of env now lang files st]
proof (elim disjE exE conjE)
  assume "snd (handleFileUpload env now lang files st) = st"
  with assms show ?thesis by simp
next
  fix cs
  assume p: "process_files env now lang 0 files [] 100 = Inr cs"
    and r: "snd (handleFileUpload env now lang files st) =
        st\<lparr>cards := cs, connections := sequential_connections cs\<rparr>"
  have "distinct (map card_id cs)"
    by (rule process_files_distinct [OF _ _ p]) simp_all
  with r show ?thesis by simp
qed

section \<open>Verification: card identities\<close>

text \<open>
  Whiteboard events never change the identities in the card store, so the pairwise
  distinct identities a file import leaves stay distinct while the whiteboard is used,
  and no handler ever stores a card with an empty identity.
\<close>

lemma handleMouseDown_cards: "cards (handleMouseDown now e c st) = cards st"
  by (simp add: handleMouseDown_def handleCreateConnection_def onCardSelect_fields)

lemma centerCard_cards: "cards (centerCard c st) = cards st"
  by (simp add: centerCard_def onCardSelect_fields Let_def split: option.splits)

lemma navigateSequential_cards: "cards (navigateSequential d st) = cards st"
  by (simp add: navigateSequential_def centerCard_cards Let_def)

lemma handleKeyDown_cards: "cards (handleKeyDown b e st) = cards st"
  by (simp add: handleKeyDown_def navigateSequential_closure_frame Let_def)

lemma step_card_ids: "map card_id (cards (step ev st)) = map card_id (cards st)"
proof (cases ev)
  case (MouseMove e)
  from handleMouseMove_cards [of e st] have "map card_id (cards (handleMouseMove e st)) = map card_id (cards st)"
    by (elim disjE exE conjE) (simp_all only: map_replace_ids)
  with MouseMove show ?thesis by simp
next
  case (NavButtonClick d)
  with step_NavButtonClick [of d st] show ?thesis
    by (auto simp add: navigateSequential_cards)
qed (simp_all add: handleMouseDown_cards handleBackgroundMouseDown_def handleMouseUp_def
       handleWheel_def Let_def zoomIn_def zoomOut_def handleLinkClick_def handleKeyDown_cards
       centerCard_cards)

lemma run_card_ids: "map card_id (cards (run evs st)) = map card_id (cards st)"
  unfolding run_def
  by (induction evs arbitrary: st) (simp_all add: step_card_ids)

lemma run_distinct_ids:
  "distinct (map card_id (cards st)) \<Longrightarrow> distinct (map card_id (cards (run evs st)))"
  by (simp add: run_card_ids)

lemma string_of_nat_not_Nil: "string_of_nat n \<noteq> []"
  by (subst string_of_nat.simps) simp

lemma process_files_origin:
  assumes "\<forall>c \<in> set acc. \<exists>j x idx s. c = file_card now lang j x (idx, s)"
    and "process_files env now lang i fs acc x = Inr cs"
  shows "\<forall>c \<in> set cs. \<exists>j x idx s. c = file_card now lang j x (idx, s)"
  using assms
proof (induction fs arbitrary: i acc x)
  case Nil
  then show ?case by simp
next
  case (Cons f fs)
  show ?case
  proof (cases "supported f")
    case False
    with Cons.prems(2) have "process_files env now lang (i + 1) fs acc x = Inr cs"
      by (simp add: supported_def)
    from Cons.IH [OF Cons.prems(1) this] show ?thesis .
  next
    case True
    with Cons.prems(2) obtain ss where ss: "extract_sections f = Inr ss"
      by (cases "extract_sections f") (auto simp add: supported_def Let_def)
    let ?ps = "map (\<lambda>s. s\<lparr>sec_text := processed_text env lang (sec_text s)\<rparr>) ss"
    let ?new = "map (file_card now lang i x) (enumerate 0 ?ps)"
    from Cons.prems(2) have r: "process_files env now lang (i + 1) fs (acc @ ?new) (x + 650) = Inr cs"
      by (simp only: process_files_take [OF True ss])
    have "\<forall>c \<in> set (acc @ ?new). \<exists>j x idx s. c = file_card now lang j x (idx, s)"
    proof
      fix c
      assume "c \<in> set (acc @ ?new)"
      then consider "c \<in> set acc" | "c \<in> set ?new" by auto
      then show "\<exists>j x idx s. c = file_card now lang j x (idx, s)"
      proof cases
        case 1
        with Cons.prems(1) show ?thesis by blast
      next
        case 2
        then obtain idxb sb where "c = file_card now lang i x (idxb, sb)"
          by auto
        then show ?thesis by blast
      qed
    qed
    from Cons.IH [OF this r] show ?thesis .
  qed
qed

lemma handleFileUpload_ids_nonempty:
  assumes "[] \<notin> set (map card_id (cards st))"
  shows "[] \<notin> set (map card_id (cards (snd (handleFileUpload env now lang files st))))"
  using handleFileUpload_result [of env now lang files st]
proof (elim disjE exE conjE)
  assume "snd (handleFileUpload env now lang files st) = st"
  with assms show ?thesis by simp
next
  fix cs
  assume p: "process_files env now lang 0 files [] 100 = Inr cs"
    and r: "snd (handleFileUpload env now lang files st) =
        st\<lparr>cards := cs, connections := sequential_connections cs\<rparr>"
  have "\<forall>c \<in> set cs. \<exists>j x idx s. c = file_card now lang j x (idx, s)"
    by (rule process_files_origin [OF _ p]) simp
  then have "\<forall>c \<in> set cs. card_id c \<noteq> []"
    by (auto simp add: file_card_fields)
  with r show ?thesis by auto
qed

lemma app_step_ids_nonempty:
  assumes "[] \<notin> set (map card_id (cards st))"
  shows "[] \<notin> set (map card_id (cards (app_step ev st)))"
proof (cases ev)
  case (ProcessText env lang input)
  with assms show ?thesis
    by (auto simp add: handleProcessText_def split: sum.splits)
next
  case (FileUpload env now lang files)
  with handleFileUpload_ids_nonempty [OF assms, of env now lang files] show ?thesis by simp
next
  case (AddCard now title content)
  with assms show ?thesis
    by (simp add: handleAddCard_def Let_def string_of_nat_not_Nil [symmetric])
next
  case (Board bev)
  with assms show ?thesis by (simp add: step_card_ids)
qed

lemma app_run_ids_nonempty:
  "[] \<notin> set (map card_id (cards st)) \<Longrightarrow> [] \<notin> set (map card_id (cards (app_run evs st)))"
  unfolding app_run_def
proof (induction evs arbitrary: st)
  case Nil
  then show ?case by simp
next
  case (Cons ev evs)
  from Cons.IH [OF app_step_ids_nonempty [OF Cons.prems, of ev]] show ?case by simp
qed

section \<open>Verification: the connection store\<close>

lemma handleCreateConnection_ignored:
  "fromId = toId \<or> has_pair fromId toId (connections st) \<Longrightarrow>
   handleCreateConnection now fromId toId st = st"
  by (auto simp add: handleCreateConnection_def has_pair_def list_ex_iff)

lemma handleCreateConnection_appends:
  "fromId \<noteq> toId \<Longrightarrow> \<not> has_pair fromId toId (connections st) \<Longrightarrow>
   connections (handleCreateConnection now fromId toId st) =
     connections st @ [\<lparr>conn_id = ''conn-'' @ string_of_nat now,
                        fromCardId = fromId, toCardId = toId, conn_label = None\<rparr>]"
  by (auto simp add: handleCreateConnection_def has_pair_def list_ex_iff)

lemma handleCreateConnection_has_pair:
  "fromId \<noteq> toId \<Longrightarrow>
   has_pair fromId toId (connections (handleCreateConnection now fromId toId st))"
  by (cases "has_pair fromId toId (connections st)")
     (simp_all add: handleCreateConnection_ignored handleCreateConnection_appends,
      simp add: has_pair_def)

lemma handleCreateConnection_idem:
  "handleCreateConnection now' fromId toId (handleCreateConnection now fromId toId st) =
   handleCreateConnection now fromId toId st"
proof (cases "fromId = toId")
  case True
  then show ?thesis by (simp add: handleCreateConnection_ignored)
next
  case False
  then show ?thesis
    by (rule handleCreateConnection_ignored [OF disjI2, OF handleCreateConnection_has_pair])
qed

lemma handleCreateConnection_inv:
  assumes "no_self_loop (connections st)" and "no_duplicate_pair (connections st)"
  shows "no_self_loop (connections (handleCreateConnection now fromId toId st)) \<and>
         no_duplicate_pair (connections (handleCreateConnection now fromId toId st))"
proof (cases "fromId = toId \<or> has_pair fromId toId (connections st)")
  case True
  with assms show ?thesis by (simp add: handleCreateConnection_ignored)
next
  case False
  then have "connections (handleCreateConnection now fromId toId st) =
     connections st @ [\<lparr>conn_id = ''conn-'' @ string_of_nat now,
                        fromCardId = fromId, toCardId = toId, conn_label = None\<rparr>]"
    by (simp add: handleCreateConnection_appends)
  with assms False show ?thesis
    by (auto simp add: no_self_loop_def no_duplicate_pair_def has_pair_def)
qed

lemma centerCard_connections: "connections (centerCard c st) = connections st"
  by (simp add: centerCard_def onCardSelect_fields Let_def split: option.splits)

lemma navigateSequential_connections: "connections (navigateSequential d st) = connections st"
  by (simp add: navigateSequential_def centerCard_connections Let_def)

lemma handleKeyDown_connections: "connections (handleKeyDown b e st) = connections st"
  by (simp add: handleKeyDown_def navigateSequential_closure_frame Let_def)

lemma handleMouseMove_connections: "connections (handleMouseMove e st) = connections st"
  by (simp add: handleMouseMove_def onCardUpdate_def Let_def split: option.splits)

lemma handleMouseDown_connections:
  "connections (handleMouseDown now e c st) = connections st \<or>
   (\<exists>fromId. connections (handleMouseDown now e c st) =
       connections (handleCreateConnection now fromId (card_id c) st))"
  by (auto simp add: handleMouseDown_def onCardSelect_fields)

lemma step_connections_inv:
  assumes "no_self_loop (connections st) \<and> no_duplicate_pair (connections st)"
  shows "no_self_loop (connections (step ev st)) \<and> no_duplicate_pair (connections (step ev st))"
proof (cases ev)
  case (CardMouseDown now e c)
  from handleMouseDown_connections [of now e c st] show ?thesis
  proof (elim disjE exE)
    assume "connections (handleMouseDown now e c st) = connections st"
    with assms CardMouseDown show ?thesis by simp
  next
    fix fromId
    assume "connections (handleMouseDown now e c st) =
       connections (handleCreateConnection now fromId (card_id c) st)"
    with assms CardMouseDown handleCreateConnection_inv [of st now fromId "card_id c"]
    show ?thesis by simp
  qed
next
  case (NavButtonClick d)
  with assms step_NavButtonClick [of d st] show ?thesis
    by (auto simp add: navigateSequential_connections)
qed (use assms in \<open>simp_all add: handleBackgroundMouseDown_def handleMouseUp_def
       handleLinkClick_def handleMouseMove_connections handleKeyDown_connections
       centerCard_connections handleWheel_def Let_def zoomIn_def zoomOut_def\<close>)

lemma run_connections_inv:
  "no_self_loop (connections st) \<and> no_duplicate_pair (connections st) \<Longrightarrow>
   no_self_loop (connections (run evs st)) \<and> no_duplicate_pair (connections (run evs st))"
  unfolding run_def
proof (induction evs arbitrary: st)
  case Nil
  then show ?case by simp
next
  case (Cons ev evs)
  from Cons.IH [OF step_connections_inv [OF Cons.prems, of ev]] show ?case by simp
qed

lemma app_step_connections_inv:
  assumes "no_self_loop (connections st) \<and> no_duplicate_pair (connections st)"
  shows "no_self_loop (connections (app_step ev st)) \<and>
         no_duplicate_pair (connections (app_step ev st))"
proof (cases ev)
  case (ProcessText env lang input)
  with assms show ?thesis
    by (auto simp add: handleProcessText_def split: sum.splits)
next
  case (FileUpload env now lang files)
  with handleFileUpload_inv [OF assms, of env now lang files] show ?thesis by simp
next
  case (AddCard now title content)
  with assms show ?thesis by (simp add: handleAddCard_def Let_def)
next
  case (Board bev)
  with step_connections_inv [OF assms, of bev] show ?thesis by simp
qed

lemma app_run_connections_inv:
  "no_self_loop (connections st) \<and> no_duplicate_pair (connections st) \<Longrightarrow>
   no_self_loop (connections (app_run evs st)) \<and> no_duplicate_pair (connections (app_run evs st))"
  unfolding app_run_def
proof (induction evs arbitrary: st)
  case Nil
  then show ?case by simp
next
  case (Cons ev evs)
  from Cons.IH [OF app_step_connections_inv [OF Cons.prems, of ev]] show ?case by simp
qed

lemma handleMouseDown_connecting:
  assumes "connectingFromId st = Some fromId" and "fromId \<noteq> []"
  shows "handleMouseDown now e c st =
           (handleCreateConnection now fromId (card_id c) st)\<lparr>connectingFromId := None\<rparr>"
  using assms by (simp add: handleMouseDown_def truthy_def)

text \<open>
  Claim C5. A connection-create request whose two identities are equal, or whose pair is
  already in the store, returns the state unchanged (no error value exists for it to
  signal), and the click on the target card that issues such a request leaves the store as
  it is and ends the connecting mode; repeating any request changes nothing more; and a
  store without self-loop and without duplicate pair stays so after a request and after
  any sequence of application events (text import, file import, added cards, whiteboard
  events), so the store of a session, which starts empty, never holds a self-loop or a
  duplicate pair.
\<close>

theorem connection_create_ignores_self_and_duplicate:
  "(fromId = toId \<or> has_pair fromId toId (connections st) \<longrightarrow>
      handleCreateConnection now fromId toId st = st) \<and>
   (connectingFromId st = Some fromId \<and> fromId \<noteq> [] \<and>
    (fromId = card_id c \<or> has_pair fromId (card_id c) (connections st)) \<longrightarrow>
      connections (handleMouseDown now e c st) = connections st \<and>
      connectingFromId (handleMouseDown now e c st) = None) \<and>
   handleCreateConnection now' fromId toId (handleCreateConnection now fromId toId st) =
     handleCreateConnection now fromId toId st \<and>
   (no_self_loop (connections st) \<and> no_duplicate_pair (connections st) \<longrightarrow>
      no_self_loop (connections (handleCreateConnection now fromId toId st)) \<and>
      no_duplicate_pair (connections (handleCreateConnection now fromId toId st)) \<and>
      no_self_loop (connections (app_run evs st)) \<and>
      no_duplicate_pair (connections (app_run evs st))) \<and>
   (connections st = [] \<longrightarrow>
      no_self_loop (connections (app_run evs st)) \<and>
      no_duplicate_pair (connections (app_run evs st)))"
proof -
  have "connections st = [] \<longrightarrow>
      no_self_loop (connections st) \<and> no_duplicate_pair (connections st)"
    by (simp add: no_self_loop_def no_duplicate_pair_def)
  moreover have "connectingFromId st = Some fromId \<and> fromId \<noteq> [] \<and>
    (fromId = card_id c \<or> has_pair fromId (card_id c) (connections st)) \<longrightarrow>
      connections (handleMouseDown now e c st) = connections st \<and>
      connectingFromId (handleMouseDown now e c st) = None"
  proof (intro impI, elim conjE)
    assume a: "connectingFromId st = Some fromId" "fromId \<noteq> []"
      and b: "fromId = card_id c \<or> has_pair fromId (card_id c) (connections st)"
    from handleMouseDown_connecting [OF a] handleCreateConnection_ignored [OF b]
    show "connections (handleMouseDown now e c st) = connections st \<and>
      connectingFromId (handleMouseDown now e c st) = None"
      by simp
  qed
  ultimately show ?thesis
    using handleCreateConnection_ignored [of fromId toId st now]
      handleCreateConnection_idem [of now' fromId toId now st]
      handleCreateConnection_inv [of st now fromId toId]
      app_run_connections_inv [of st evs]
    by blast
qed

theorem connection_create_ignores_self_and_duplicate_witness:
  "has_pair (card_id example_first) (card_id example_second) (connections example_state) \<and>
   handleCreateConnection 1700000000500 (card_id example_first) (card_id example_second)
     example_state = example_state \<and>
   handleCreateConnection 1700000000500 (card_id example_first) (card_id example_first)
     example_state = example_state \<and>
   no_self_loop (connections example_state) \<and>
   no_duplicate_pair (connections example_state) \<and>
   no_self_loop (connections
     (app_run [Board (LinkClick example_third),
               Board (CardMouseDown 1700000000900 \<lparr>clientX = 5, clientY = 5\<rparr> example_first)]
        example_state)) \<and>
   no_duplicate_pair (connections
     (app_run [Board (LinkClick example_third),
               Board (CardMouseDown 1700000000900 \<lparr>clientX = 5, clientY = 5\<rparr> example_first)]
        example_state)) \<and>
   connections (example_state\<lparr>connections := []\<rparr>) = [] \<and>
   no_self_loop (connections
     (app_run [Board (LinkClick example_third),
               Board (CardMouseDown 1700000000900 \<lparr>clientX = 5, clientY = 5\<rparr> example_first)]
        (example_state\<lparr>connections := []\<rparr>))) \<and>
   no_duplicate_pair (connections
     (app_run [Board (LinkClick example_third),
               Board (CardMouseDown 1700000000900 \<lparr>clientX = 5, clientY = 5\<rparr> example_first)]
        (example_state\<lparr>connections := []\<rparr>))) \<and>
   connections (handleMouseDown 1700000000500 \<lparr>clientX = 5, clientY = 5\<rparr> example_second
            (example_state\<lparr>connectingFromId := Some (card_id example_first)\<rparr>)) =
     connections example_state"
proof -
  let ?evs = "[Board (LinkClick example_third),
               Board (CardMouseDown 1700000000900 \<lparr>clientX = 5, clientY = 5\<rparr> example_first)]"
  have p: "has_pair (card_id example_first) (card_id example_second) (connections example_state)"
    by (simp add: has_pair_def example_state_fields example_ids example_link_ends)
  have l: "no_self_loop (connections example_state)"
    by (simp add: no_self_loop_def example_state_fields example_link_ends)
  have d: "no_duplicate_pair (connections example_state)"
    by (simp add: no_duplicate_pair_def example_state_fields example_link_ends)
  have e: "connections (example_state\<lparr>connections := []\<rparr>) = []"
    by simp
  note t = connection_create_ignores_self_and_duplicate
        [where fromId = "card_id example_first" and toId = "card_id example_second"
           and st = example_state and now = 1700000000500 and now' = 0 and evs = ?evs
           and c = example_second and e = "\<lparr>clientX = 5, clientY = 5\<rparr>"]
  note u = connection_create_ignores_self_and_duplicate
        [where fromId = "card_id example_first" and toId = "card_id example_first"
           and st = example_state and now = 1700000000500 and now' = 0 and evs = "[]"
           and c = example_second and e = "\<lparr>clientX = 5, clientY = 5\<rparr>"]
  note v = connection_create_ignores_self_and_duplicate
        [where fromId = "card_id example_first" and toId = "card_id example_first"
           and st = "example_state\<lparr>connections := []\<rparr>" and now = 1700000000500
           and now' = 0 and evs = ?evs
           and c = example_second and e = "\<lparr>clientX = 5, clientY = 5\<rparr>"]
  note w = connection_create_ignores_self_and_duplicate
        [where fromId = "card_id example_first" and toId = "card_id example_second"
           and st = "example_state\<lparr>connectingFromId := Some (card_id example_first)\<rparr>"
           and now = 1700000000500 and now' = 0 and evs = "[]"
           and c = example_second and e = "\<lparr>clientX = 5, clientY = 5\<rparr>"]
  from u have s: "handleCreateConnection 1700000000500 (card_id example_first)
     (card_id example_first) example_state = example_state"
    by blast
  from v e have x: "no_self_loop (connections (app_run ?evs (example_state\<lparr>connections := []\<rparr>))) \<and>
     no_duplicate_pair (connections (app_run ?evs (example_state\<lparr>connections := []\<rparr>)))"
    by blast
  have "connectingFromId (example_state\<lparr>connectingFromId := Some (card_id example_first)\<rparr>) =
          Some (card_id example_first)"
    "card_id example_first \<noteq> []"
    "has_pair (card_id example_first) (card_id example_second)
       (connections (example_state\<lparr>connectingFromId := Some (card_id example_first)\<rparr>))"
    using p by (simp_all add: example_ids)
  with w have y: "connections (handleMouseDown 1700000000500 \<lparr>clientX = 5, clientY = 5\<rparr> example_second
            (example_state\<lparr>connectingFromId := Some (card_id example_first)\<rparr>)) =
         connections example_state"
    by simp
  from p l d e s t x y show ?thesis
    by blast
qed

end
